theory Spec2Isabelle
  imports Main "HOL-Library.Word"
begin

section \<open>The cluster-plug hotplug driver (drivers/cpufreq/hisi/cluster\_plug.c)\<close>

text \<open>
  The driver keeps its state in file-level statics. The model collects them in one
  record, together with the two pieces of kernel state the driver reads and writes
  (the online mask behind \<open>cpu_online\<close>, and the \<open>offline\<close> flag of each CPU
  device) and the one delayed work item \<open>cluster_plug_work\<close>.
  Unsigned ints are 32-bit words, the \<open>u64\<close> time stamps 64-bit words, CPU numbers
  are naturals.
\<close>

type_synonym u32 = "32 word"
type_synonym u64 = "64 word"

definition N_BIG_CPUS :: nat where
  "N_BIG_CPUS = 4"

definition N_LITTLE_CPUS :: nat where
  "N_LITTLE_CPUS = 4"

record cp_cpu_info =
  prev_cpu_wall :: u64
  prev_cpu_idle :: u64

record state =
  load_threshold_down :: u32
  load_threshold_up :: u32
  sampling_time :: u32
  vote_threshold_down :: u32
  vote_threshold_up :: u32
  max_cores_screenoff :: u32
  active :: bool
  workqueue_suspended :: bool
  screen_on :: bool
  big_cluster_enabled :: bool
  little_cluster_enabled :: bool
  low_power_mode :: bool
  screen_off_power_mode :: bool
  online_all :: bool
  vote_up :: u32
  vote_down :: u32
  cp_info :: "nat \<Rightarrow> cp_cpu_info"
  online_mask :: "nat \<Rightarrow> bool"
  dev_offline :: "nat \<Rightarrow> bool"
  work_pending :: "u32 option"

text \<open>
  \<open>work_pending s = Some d\<close>: the work item is queued, to run after \<open>d\<close> milliseconds;
  \<open>None\<close>: it is not queued.
\<close>

subsection \<open>Topology (the LITTLE\_BIG variant is the one compiled: cpu0 is a little core)\<close>

definition is_big_cpu :: "nat \<Rightarrow> bool" where
  "is_big_cpu cpu = (cpu \<ge> N_LITTLE_CPUS)"

definition is_little_cpu :: "nat \<Rightarrow> bool" where
  "is_little_cpu cpu = (cpu < N_LITTLE_CPUS)"

text \<open>
  \<open>for_each_present_cpu\<close> and \<open>for_each_possible_cpu\<close> walk the CPU numbers upwards.
  The driver is written for eight of them (its other loops run over 0..7).
\<close>

definition present_cpus :: "nat list" where
  "present_cpus = [0, 1, 2, 3, 4, 5, 6, 7]"

definition possible_cpus :: "nat list" where
  "possible_cpus = [0, 1, 2, 3, 4, 5, 6, 7]"

subsection \<open>The kernel's hotplug interface\<close>

definition cpu_online :: "state \<Rightarrow> nat \<Rightarrow> bool" where
  "cpu_online s cpu = online_mask s cpu"

definition cpu_is_offline :: "state \<Rightarrow> nat \<Rightarrow> bool" where
  "cpu_is_offline s cpu = (\<not> cpu_online s cpu)"

text \<open>
  Modelled from the spec: \<open>cpu_up\<close> and \<open>cpu_down\<close> (kernel/cpu.c) are the opaque
  capability that brings a core online or takes it offline, and that can fail. Whether
  a call succeeds is an input of the model: \<open>hw cpu\<close> says whether the kernel carries
  out the switch of \<open>cpu\<close> that the driver asks for during one run of the work (no run
  asks twice for the same core). A call that fails leaves the online mask as it is.
  The driver never looks at the return value, so there is none.
\<close>

definition cpu_up :: "(nat \<Rightarrow> bool) \<Rightarrow> nat \<Rightarrow> state \<Rightarrow> state" where
  "cpu_up hw cpu s = (if hw cpu then s\<lparr>online_mask := (online_mask s)(cpu := True)\<rparr> else s)"

definition cpu_down :: "(nat \<Rightarrow> bool) \<Rightarrow> nat \<Rightarrow> state \<Rightarrow> state" where
  "cpu_down hw cpu s = (if hw cpu then s\<lparr>online_mask := (online_mask s)(cpu := False)\<rparr> else s)"

definition set_dev_offline :: "nat \<Rightarrow> bool \<Rightarrow> state \<Rightarrow> state" where
  "set_dev_offline cpu v s = s\<lparr>dev_offline := (dev_offline s)(cpu := v)\<rparr>"

subsection \<open>Switching cores\<close>

text \<open>\<open>optimized_online_all\<close>: \<open>for (cpu_num = 7; cpu_num >= 0; cpu_num--)\<close>.\<close>

fun optimized_online_all_loop :: "(nat \<Rightarrow> bool) \<Rightarrow> nat \<Rightarrow> state \<Rightarrow> state" where
  "optimized_online_all_loop hw 0 s =
     (if cpu_is_offline s 0 then set_dev_offline 0 False (cpu_up hw 0 s) else s)"
| "optimized_online_all_loop hw (Suc n) s =
     optimized_online_all_loop hw n
       (if cpu_is_offline s (Suc n) then set_dev_offline (Suc n) False (cpu_up hw (Suc n) s)
        else s)"

definition optimized_online_all :: "(nat \<Rightarrow> bool) \<Rightarrow> state \<Rightarrow> state" where
  "optimized_online_all hw s = optimized_online_all_loop hw 7 s"

definition switch_cpu :: "(nat \<Rightarrow> bool) \<Rightarrow> nat \<Rightarrow> bool \<Rightarrow> state \<Rightarrow> state" where
  "switch_cpu hw cpu offline s =
     set_dev_offline cpu offline
       (if offline then (if cpu_online s cpu then cpu_down hw cpu s else s)
        else (if cpu_is_offline s cpu then cpu_up hw cpu s else s))"

fun disable_big_loop :: "(nat \<Rightarrow> bool) \<Rightarrow> nat list \<Rightarrow> state \<Rightarrow> state" where
  "disable_big_loop hw [] s = s"
| "disable_big_loop hw (cpu # rest) s =
     disable_big_loop hw rest
       (if is_big_cpu cpu \<and> cpu_online s cpu then switch_cpu hw cpu True s else s)"

definition disable_big_cluster :: "(nat \<Rightarrow> bool) \<Rightarrow> state \<Rightarrow> state" where
  "disable_big_cluster hw s =
     (if \<not> big_cluster_enabled s then s
      else (disable_big_loop hw present_cpus s)\<lparr>big_cluster_enabled := False\<rparr>)"

text \<open>
  \<open>enable_little_cluster\<close>: the second argument of the loop is the local
  \<open>required_cpus\<close>; \<open>num_up\<close> and \<open>total_cpus\<close> are only logged.
\<close>

fun enable_little_loop :: "(nat \<Rightarrow> bool) \<Rightarrow> nat list \<Rightarrow> u32 \<Rightarrow> state \<Rightarrow> state" where
  "enable_little_loop hw [] required_cpus s = s"
| "enable_little_loop hw (cpu # rest) required_cpus s =
     (if is_little_cpu cpu then
        (if required_cpus > 0 then
           enable_little_loop hw rest (required_cpus - 1)
             (if \<not> cpu_online s cpu then switch_cpu hw cpu False s else s)
         else
           enable_little_loop hw rest required_cpus
             (if cpu_online s cpu then switch_cpu hw cpu True s else s))
      else enable_little_loop hw rest required_cpus s)"

definition enable_little_cluster :: "(nat \<Rightarrow> bool) \<Rightarrow> state \<Rightarrow> state" where
  "enable_little_cluster hw s =
     (let required_cpus =
            (if screen_on s = False \<and> screen_off_power_mode s = False
                \<and> max_cores_screenoff s > 0 \<and> max_cores_screenoff s \<le> 4
             then max_cores_screenoff s else 4)
      in (enable_little_loop hw present_cpus required_cpus s)
           \<lparr>little_cluster_enabled := True\<rparr>)"

text \<open>
  \<open>queue_delayed_work\<close> and \<open>queue_work\<close> do nothing when the work item is already
  queued; \<open>cancel_delayed_work\<close> takes it off the queue.
\<close>

definition queue_clusterplug_work :: "u32 \<Rightarrow> state \<Rightarrow> state" where
  "queue_clusterplug_work ms s =
     (if work_pending s = None then s\<lparr>work_pending := Some ms\<rparr> else s)"

definition queue_work :: "state \<Rightarrow> state" where
  "queue_work s = (if work_pending s = None then s\<lparr>work_pending := Some 0\<rparr> else s)"

definition cancel_delayed_work :: "state \<Rightarrow> state" where
  "cancel_delayed_work s = s\<lparr>work_pending := None\<rparr>"

text \<open>
  \<open>online_one_cpu\<close> and \<open>offline_one_cpu\<close>: both loops are
  \<open>for (cpu_num = 7-1; cpu_num >= 0+1; cpu_num--)\<close> and return at the first hit.
  The argument of the loop functions is \<open>cpu_num\<close>; at 0 the loop condition fails.
\<close>

fun online_one_cpu_loop :: "(nat \<Rightarrow> bool) \<Rightarrow> nat \<Rightarrow> state \<Rightarrow> state" where
  "online_one_cpu_loop hw 0 s = s"
| "online_one_cpu_loop hw (Suc n) s =
     (if cpu_is_offline s (Suc n) then set_dev_offline (Suc n) False (cpu_up hw (Suc n) s)
      else online_one_cpu_loop hw n s)"

definition online_one_cpu :: "(nat \<Rightarrow> bool) \<Rightarrow> state \<Rightarrow> state" where
  "online_one_cpu hw s = online_one_cpu_loop hw (7 - 1) s"

fun offline_one_cpu_loop :: "(nat \<Rightarrow> bool) \<Rightarrow> nat \<Rightarrow> state \<Rightarrow> state" where
  "offline_one_cpu_loop hw 0 s = s"
| "offline_one_cpu_loop hw (Suc n) s =
     (if cpu_online s (Suc n) then set_dev_offline (Suc n) True (cpu_down hw (Suc n) s)
      else offline_one_cpu_loop hw n s)"

definition offline_one_cpu :: "(nat \<Rightarrow> bool) \<Rightarrow> state \<Rightarrow> state" where
  "offline_one_cpu hw s = offline_one_cpu_loop hw (7 - 1) s"

subsection \<open>Sampling and the average load\<close>

text \<open>
  \<open>get_cpu_idle_time\<close> is the kernel's time source; the model takes what it returns
  for each CPU as an input of the tick: the pair (idle time, wall time).
  The deltas are cut to 32 bits as the casts to \<open>unsigned int\<close> do.
\<close>

definition get_delta_cpu_load_and_update ::
  "(nat \<Rightarrow> u64 \<times> u64) \<Rightarrow> nat \<Rightarrow> state \<Rightarrow> u32 \<times> state" where
  "get_delta_cpu_load_and_update get_cpu_idle_time cpu s =
     (let (cur_idle_time, cur_wall_time) = get_cpu_idle_time cpu;
          l_cp_info = cp_info s cpu;
          wall_time = (ucast (cur_wall_time - prev_cpu_wall l_cp_info) :: u32);
          idle_time = (ucast (cur_idle_time - prev_cpu_idle l_cp_info) :: u32);
          s' = s\<lparr>cp_info := (cp_info s)
                 (cpu := \<lparr>prev_cpu_wall = cur_wall_time, prev_cpu_idle = cur_idle_time\<rparr>)\<rparr>
      in (if wall_time = 0 \<or> wall_time < idle_time then 100
          else 100 * (wall_time - idle_time) div wall_time, s'))"

text \<open>
  \<open>calculateLoad\<close>: the accumulator is (\<open>cpus\<close>, \<open>cpu_load_big\<close>,
  \<open>cpu_load_little\<close>). The division \<open>load / cpus\<close> has no guard in the source;
  the model returns \<open>None\<close> where it would divide by zero.
\<close>

fun calculateLoad_loop ::
  "(nat \<Rightarrow> u64 \<times> u64) \<Rightarrow> nat list \<Rightarrow> u32 \<times> u32 \<times> u32 \<Rightarrow> state
     \<Rightarrow> (u32 \<times> u32 \<times> u32) \<times> state" where
  "calculateLoad_loop tm [] acc s = (acc, s)"
| "calculateLoad_loop tm (cpu # rest) (cpus, cpu_load_big, cpu_load_little) s =
     (let (cpu_load, s') = get_delta_cpu_load_and_update tm cpu s;
          online = cpu_online s' cpu
      in calculateLoad_loop tm rest
           (if online then
              (if is_big_cpu cpu then (cpus + 1, cpu_load_big + cpu_load, cpu_load_little)
               else (cpus + 1, cpu_load_big, cpu_load_little + cpu_load))
            else (cpus, cpu_load_big, cpu_load_little))
           s')"

definition calculateLoad :: "(nat \<Rightarrow> u64 \<times> u64) \<Rightarrow> state \<Rightarrow> (u32 \<times> state) option" where
  "calculateLoad tm s =
     (let ((cpus, cpu_load_big, cpu_load_little), s') =
            calculateLoad_loop tm possible_cpus (0, 0, 0) s;
          load = cpu_load_big + cpu_load_little
      in if cpus = 0 then None else Some (load div cpus, s'))"

subsection \<open>Voting\<close>

text \<open>
  \<open>cluster_plug_perform\<close> holds the average in an \<open>int\<close> and compares it with the
  unsigned thresholds, so the comparisons are unsigned; the model keeps the 32-bit word.
  \<open>cast_vote\<close> is the first \<open>if\<close> of the function (the two counters),
  \<open>cluster_plug_perform\<close> the whole of it.
\<close>

definition cast_vote :: "u32 \<Rightarrow> state \<Rightarrow> state" where
  "cast_vote load s =
     (if load > load_threshold_up s then
        (let s1 = s\<lparr>vote_up := vote_up s + 1\<rparr>
         in if vote_down s1 > 0 then s1\<lparr>vote_down := vote_down s1 - 1\<rparr> else s1)
      else if load < load_threshold_down s then
        (let s1 = s\<lparr>vote_down := vote_down s + 1\<rparr>
         in if vote_up s1 > 0 then s1\<lparr>vote_up := vote_up s1 - 1\<rparr> else s1)
      else s)"

definition cluster_plug_perform ::
  "(nat \<Rightarrow> bool) \<Rightarrow> (nat \<Rightarrow> u64 \<times> u64) \<Rightarrow> state \<Rightarrow> state option" where
  "cluster_plug_perform hw tm s =
     (case calculateLoad tm s of
        None \<Rightarrow> None
      | Some (load, s0) \<Rightarrow>
          (let s1 = cast_vote load s0
           in if vote_up s1 > vote_threshold_up s1 then
                Some ((online_one_cpu hw s1)\<lparr>vote_up := 0, vote_down := 0\<rparr>)
              else if vote_down s1 > vote_threshold_down s1 then
                Some ((offline_one_cpu hw s1)\<lparr>vote_up := 0, vote_down := 0\<rparr>)
              else Some s1))"

text \<open>
  The voting engine on its own: what one call of \<open>cluster_plug_perform\<close> does with the
  load it computed, as the action it takes and the state before the core is switched.
\<close>

datatype action = NoAction | AddCore | RemoveCore

definition observe :: "u32 \<Rightarrow> state \<Rightarrow> action \<times> state" where
  "observe load s =
     (let s1 = cast_vote load s
      in if vote_up s1 > vote_threshold_up s1 then
           (AddCore, s1\<lparr>vote_up := 0, vote_down := 0\<rparr>)
         else if vote_down s1 > vote_threshold_down s1 then
           (RemoveCore, s1\<lparr>vote_up := 0, vote_down := 0\<rparr>)
         else (NoAction, s1))"

fun apply_action :: "(nat \<Rightarrow> bool) \<Rightarrow> action \<Rightarrow> state \<Rightarrow> state" where
  "apply_action hw NoAction s = s"
| "apply_action hw AddCore s = online_one_cpu hw s"
| "apply_action hw RemoveCore s = offline_one_cpu hw s"

text \<open>
  A sequence of calls of \<open>cluster_plug_perform\<close>, each with the kernel's answers and the
  time stamps of its moment.
\<close>

fun perform_all ::
  "((nat \<Rightarrow> bool) \<times> (nat \<Rightarrow> u64 \<times> u64)) list \<Rightarrow> state \<Rightarrow> state option" where
  "perform_all [] s = Some s"
| "perform_all ((hw, tm) # rest) s =
     (case cluster_plug_perform hw tm s of
        None \<Rightarrow> None
      | Some s' \<Rightarrow> perform_all rest s')"

subsection \<open>The periodic work\<close>

text \<open>
  \<open>cluster_plug_work_fn\<close>, entered with the work item off the queue.
  \<open>None\<close>: the tick divided by zero in \<open>calculateLoad\<close>.
\<close>

definition cluster_plug_work_fn ::
  "(nat \<Rightarrow> bool) \<Rightarrow> (nat \<Rightarrow> u64 \<times> u64) \<Rightarrow> state \<Rightarrow> state option" where
  "cluster_plug_work_fn hw tm s0 =
     (let s1 = (if online_all s0 then
                  (optimized_online_all hw s0)
                    \<lparr>big_cluster_enabled := True, little_cluster_enabled := True\<rparr>
                else s0)
      in if active s1 then
           (if \<not> online_all s1 then
              (if (screen_on s1 \<or> screen_off_power_mode s1 = True)
                    \<and> low_power_mode s1 = False then
                 (case cluster_plug_perform hw tm s1 of
                    None \<Rightarrow> None
                  | Some s2 \<Rightarrow>
                      Some ((queue_clusterplug_work (sampling_time s2) s2)
                              \<lparr>online_all := False\<rparr>))
               else
                 Some ((disable_big_cluster hw (enable_little_cluster hw s1))
                         \<lparr>workqueue_suspended := True\<rparr>))
            else Some ((queue_clusterplug_work (sampling_time s1) s1)\<lparr>online_all := False\<rparr>))
         else Some (s1\<lparr>online_all := False\<rparr>))"

text \<open>
  The workqueue runs the item when it is queued, and takes it off the queue first.
  With nothing queued, nothing runs.
\<close>

definition run_pending_work ::
  "(nat \<Rightarrow> bool) \<Rightarrow> (nat \<Rightarrow> u64 \<times> u64) \<Rightarrow> state \<Rightarrow> state option" where
  "run_pending_work hw tm s =
     (case work_pending s of
        None \<Rightarrow> Some s
      | Some d \<Rightarrow> cluster_plug_work_fn hw tm (s\<lparr>work_pending := None\<rparr>))"

subsection \<open>Display notifications\<close>

datatype lcd_event =
  LCD_EVENT_OFF_START | LCD_EVENT_OFF_END | LCD_EVENT_ON_START | LCD_EVENT_ON_END
  | LCD_EVENT_OTHER

definition cluster_plug_hotplug_suspend :: "state \<Rightarrow> state" where
  "cluster_plug_hotplug_suspend s =
     (if active s then
        (let s1 = s\<lparr>screen_on := False\<rparr>
         in if workqueue_suspended s1 then
              queue_clusterplug_work 1 (s1\<lparr>workqueue_suspended := False\<rparr>)
            else s1)
      else s)"

definition cluster_plug_hotplug_resume :: "state \<Rightarrow> state" where
  "cluster_plug_hotplug_resume s =
     (if active s then
        (let s1 = s\<lparr>screen_on := True\<rparr>
         in if workqueue_suspended s1 then
              queue_work
                (s1\<lparr>online_all := True, vote_up := 0, vote_down := 0,
                    workqueue_suspended := False\<rparr>)
            else s1)
      else s)"

definition lcd_notifier_callback :: "lcd_event \<Rightarrow> state \<Rightarrow> state" where
  "lcd_notifier_callback ev s =
     (if \<not> active s then s
      else (case ev of
              LCD_EVENT_OFF_START \<Rightarrow> s
            | LCD_EVENT_OFF_END \<Rightarrow> cluster_plug_hotplug_suspend s
            | LCD_EVENT_ON_START \<Rightarrow> cluster_plug_hotplug_resume s
            | LCD_EVENT_ON_END \<Rightarrow> s
            | LCD_EVENT_OTHER \<Rightarrow> s))"

subsection \<open>The parameters\<close>

text \<open>
  The three flags have their own setters. Each parses the text with \<open>kstrtoint\<close> and
  returns its result; the model takes that result as input, \<open>Inl\<close> the error and
  \<open>Inr\<close> the number read, and returns the setter's return value (\<open>None\<close> for 0)
  with the new state.
  \<open>flush_workqueue\<close> waits for a work function that is running. Ticks and writes are
  whole steps of the model, none runs inside another, so it changes nothing here.
\<close>

datatype errno = EINVAL | ERANGE

definition flush_workqueue :: "state \<Rightarrow> state" where
  "flush_workqueue s = s"

definition active_store :: "errno + int \<Rightarrow> state \<Rightarrow> errno option \<times> state" where
  "active_store parsed s =
     (case parsed of
        Inl ret \<Rightarrow> (Some ret, s)
      | Inr val \<Rightarrow>
          if (val \<noteq> 0) = active s then (None, s)
          else
            (let s1 = cancel_delayed_work (flush_workqueue s);
                 s2 = s1\<lparr>active := (val \<noteq> 0)\<rparr>;
                 s3 = s2\<lparr>online_all := True\<rparr>;
                 s4 = s3\<lparr>workqueue_suspended := False\<rparr>
             in (None, queue_clusterplug_work 1 s4)))"

definition low_power_mode_store :: "errno + int \<Rightarrow> state \<Rightarrow> errno option \<times> state" where
  "low_power_mode_store parsed s =
     (case parsed of
        Inl ret \<Rightarrow> (Some ret, s)
      | Inr val \<Rightarrow>
          if (val \<noteq> 0) = low_power_mode s then (None, s)
          else
            (let s1 = cancel_delayed_work (flush_workqueue s);
                 s2 = s1\<lparr>low_power_mode := (val \<noteq> 0)\<rparr>;
                 s3 = (if low_power_mode s2 then s2\<lparr>screen_off_power_mode := False\<rparr> else s2);
                 s4 = s3\<lparr>workqueue_suspended := False\<rparr>
             in (None, queue_clusterplug_work 1 s4)))"

definition screen_off_power_mode_store ::
  "errno + int \<Rightarrow> state \<Rightarrow> errno option \<times> state" where
  "screen_off_power_mode_store parsed s =
     (case parsed of
        Inl ret \<Rightarrow> (Some ret, s)
      | Inr val \<Rightarrow>
          if (val \<noteq> 0) = screen_off_power_mode s then (None, s)
          else
            (let s1 = cancel_delayed_work (flush_workqueue s);
                 s2 = s1\<lparr>screen_off_power_mode := (val \<noteq> 0)\<rparr>;
                 s3 = (if screen_off_power_mode s2 then s2\<lparr>low_power_mode := False\<rparr> else s2);
                 s4 = s3\<lparr>workqueue_suspended := False\<rparr>
             in (None, queue_clusterplug_work 1 s4)))"

text \<open>
  The six numbers are declared \<open>module_param(name, uint, 0664)\<close>. That declaration
  gives a parameter the kernel's generic setter for unsigned ints (\<open>param_set_uint\<close>
  of kernel/params.c, which is not part of this file): \<open>kstrtouint\<close> on the text and,
  when it succeeds, a store to the variable. The file gives these parameters no setter
  of its own, as it does for the three flags. The model takes the result of
  \<open>kstrtouint\<close> as input.
\<close>

datatype uint_param =
  Load_threshold_down | Load_threshold_up | Sampling_time
  | Vote_threshold_down | Vote_threshold_up | Max_cores_screenoff

fun store_uint :: "uint_param \<Rightarrow> u32 \<Rightarrow> state \<Rightarrow> state" where
  "store_uint Load_threshold_down v s = s\<lparr>load_threshold_down := v\<rparr>"
| "store_uint Load_threshold_up v s = s\<lparr>load_threshold_up := v\<rparr>"
| "store_uint Sampling_time v s = s\<lparr>sampling_time := v\<rparr>"
| "store_uint Vote_threshold_down v s = s\<lparr>vote_threshold_down := v\<rparr>"
| "store_uint Vote_threshold_up v s = s\<lparr>vote_threshold_up := v\<rparr>"
| "store_uint Max_cores_screenoff v s = s\<lparr>max_cores_screenoff := v\<rparr>"

fun load_uint :: "uint_param \<Rightarrow> state \<Rightarrow> u32" where
  "load_uint Load_threshold_down s = load_threshold_down s"
| "load_uint Load_threshold_up s = load_threshold_up s"
| "load_uint Sampling_time s = sampling_time s"
| "load_uint Vote_threshold_down s = vote_threshold_down s"
| "load_uint Vote_threshold_up s = vote_threshold_up s"
| "load_uint Max_cores_screenoff s = max_cores_screenoff s"

definition param_set_uint :: "uint_param \<Rightarrow> errno + u32 \<Rightarrow> state \<Rightarrow> errno option \<times> state" where
  "param_set_uint p parsed s =
     (case parsed of
        Inl ret \<Rightarrow> (Some ret, s)
      | Inr v \<Rightarrow> (None, store_uint p v s))"

subsection \<open>The states the driver can reach\<close>

text \<open>
  The statics as the file initialises them (\<open>DEF_LOAD_THRESH_DOWN\<close> and the others),
  the per-CPU samples zeroed, no work queued. The two arguments are the kernel's
  online mask and the devices' offline flags at that moment.
\<close>

definition init_state :: "(nat \<Rightarrow> bool) \<Rightarrow> (nat \<Rightarrow> bool) \<Rightarrow> state" where
  "init_state online offl =
     \<lparr>load_threshold_down = 20, load_threshold_up = 80, sampling_time = 50,
      vote_threshold_down = 5, vote_threshold_up = 2, max_cores_screenoff = 1,
      active = False, workqueue_suspended = True, screen_on = True,
      big_cluster_enabled = True, little_cluster_enabled = True,
      low_power_mode = False, screen_off_power_mode = False, online_all = False,
      vote_up = 0, vote_down = 0,
      cp_info = (\<lambda>cpu. \<lparr>prev_cpu_wall = 0, prev_cpu_idle = 0\<rparr>),
      online_mask = online, dev_offline = offl, work_pending = None\<rparr>"

text \<open>
  What happens to the driver, one event at a time: a tick of the queued work (with the
  kernel's answers to the hotplug calls and the time stamps of that moment), a display
  notification, a write to one of the parameters. \<open>step\<close> is \<open>None\<close> for a tick that
  divides by zero.
\<close>

datatype event =
  Tick "nat \<Rightarrow> bool" "nat \<Rightarrow> u64 \<times> u64"
  | Lcd lcd_event
  | Write_active "errno + int"
  | Write_low_power_mode "errno + int"
  | Write_screen_off_power_mode "errno + int"
  | Write_uint uint_param "errno + u32"

fun step :: "event \<Rightarrow> state \<Rightarrow> state option" where
  "step (Tick hw tm) s = run_pending_work hw tm s"
| "step (Lcd ev) s = Some (lcd_notifier_callback ev s)"
| "step (Write_active parsed) s = Some (snd (active_store parsed s))"
| "step (Write_low_power_mode parsed) s = Some (snd (low_power_mode_store parsed s))"
| "step (Write_screen_off_power_mode parsed) s =
     Some (snd (screen_off_power_mode_store parsed s))"
| "step (Write_uint p uparsed) s = Some (snd (param_set_uint p uparsed s))"

fun run :: "event list \<Rightarrow> state \<Rightarrow> state option" where
  "run [] s = Some s"
| "run (e # es) s = (case step e s of None \<Rightarrow> None | Some s' \<Rightarrow> run es s')"

text \<open>
  \<open>reachable_from H s0 s\<close>: the driver gets from \<open>s0\<close> to \<open>s\<close> by events, in any order,
  where the kernel's answers in every tick satisfy \<open>H\<close>. With \<open>any_hardware\<close> for \<open>H\<close>
  every hotplug call may succeed or fail.
\<close>

fun hw_allowed :: "((nat \<Rightarrow> bool) \<Rightarrow> bool) \<Rightarrow> event \<Rightarrow> bool" where
  "hw_allowed H (Tick hw tm) = H hw"
| "hw_allowed H (Lcd ev) = True"
| "hw_allowed H (Write_active parsed) = True"
| "hw_allowed H (Write_low_power_mode parsed) = True"
| "hw_allowed H (Write_screen_off_power_mode parsed) = True"
| "hw_allowed H (Write_uint p uparsed) = True"

inductive reachable_from :: "((nat \<Rightarrow> bool) \<Rightarrow> bool) \<Rightarrow> state \<Rightarrow> state \<Rightarrow> bool"
  for H :: "(nat \<Rightarrow> bool) \<Rightarrow> bool" and s0 :: state where
  reach_start: "reachable_from H s0 s0"
| reach_step:
    "reachable_from H s0 s \<Longrightarrow> hw_allowed H e \<Longrightarrow> step e s = Some s' \<Longrightarrow> reachable_from H s0 s'"

definition any_hardware :: "(nat \<Rightarrow> bool) \<Rightarrow> bool" where
  "any_hardware hw = True"

subsection \<open>Concrete states and inputs\<close>

text \<open>
  The kernel's answers: every hotplug call succeeds, every call fails, every call but
  the one for cpu7 succeeds, only the call for cpu5 succeeds.
\<close>

definition accept_all :: "nat \<Rightarrow> bool" where
  "accept_all cpu = True"

definition refuse_all :: "nat \<Rightarrow> bool" where
  "refuse_all cpu = False"

definition refuse_cpu7 :: "nat \<Rightarrow> bool" where
  "refuse_cpu7 cpu = (cpu \<noteq> 7)"


text \<open>
  \<open>boot_state\<close>: the driver just loaded, all eight cores online.
  \<open>running_state\<close>: the controller switched on and past its first tick, sampling
  every 50 ms with the screen on.
  \<open>voted_state\<close>: two up votes cast, then \<open>vote_threshold_up\<close> written down to 1.
  \<open>screen_off_state\<close>: the screen went off with \<open>max_cores_screenoff\<close> at 2;
  \<open>screen_off_power_state\<close>: the same with \<open>screen_off_power_mode\<close> set.
  \<open>suspended_state\<close>: the controller suspended with the screen off, cpu0 alone online.
  \<open>partial_state\<close>: sampling with cpu6 and cpu2 offline.
  \<open>lone_boot_state\<close>: the driver just loaded with cpu5 alone online.
\<close>

definition boot_state :: state where
  "boot_state = init_state (\<lambda>cpu. cpu < 8) (\<lambda>cpu. False)"

definition running_state :: state where
  "running_state =
     boot_state\<lparr>active := True, workqueue_suspended := False, work_pending := Some 50\<rparr>"

definition voted_state :: state where
  "voted_state = running_state\<lparr>vote_up := 2, vote_threshold_up := 1\<rparr>"

definition screen_off_state :: state where
  "screen_off_state = running_state\<lparr>screen_on := False, max_cores_screenoff := 2\<rparr>"

definition screen_off_power_state :: state where
  "screen_off_power_state = screen_off_state\<lparr>screen_off_power_mode := True\<rparr>"

definition suspended_state :: state where
  "suspended_state =
     boot_state\<lparr>active := True, screen_on := False, big_cluster_enabled := False,
       online_mask := (\<lambda>cpu. cpu = 0), dev_offline := (\<lambda>cpu. 0 < cpu \<and> cpu < 8)\<rparr>"

definition partial_state :: state where
  "partial_state =
     running_state\<lparr>online_mask := (\<lambda>cpu. cpu < 8 \<and> cpu \<noteq> 6 \<and> cpu \<noteq> 2),
       dev_offline := (\<lambda>cpu. cpu = 6 \<or> cpu = 2)\<rparr>"

definition lone_boot_state :: state where
  "lone_boot_state = init_state (\<lambda>cpu. cpu = 5) (\<lambda>cpu. False)"

text \<open>
  Time stamps, as (idle time, wall time), that make every core look fully busy, half
  busy, and busy at 80 percent; and what the samples hold after the eight cores were
  read at given stamps.
\<close>

definition busy_times :: "nat \<Rightarrow> u64 \<times> u64" where
  "busy_times cpu = (0, 0)"

definition half_times :: "nat \<Rightarrow> u64 \<times> u64" where
  "half_times cpu = (50, 100)"

definition edge_times :: "nat \<Rightarrow> u64 \<times> u64" where
  "edge_times cpu = (20, 100)"

definition sampled :: "u64 \<Rightarrow> u64 \<Rightarrow> nat \<Rightarrow> cp_cpu_info" where
  "sampled idle wall cpu =
     (if cpu < 8 then \<lparr>prev_cpu_wall = wall, prev_cpu_idle = idle\<rparr>
      else \<lparr>prev_cpu_wall = 0, prev_cpu_idle = 0\<rparr>)"

text \<open>
  \<open>suspend_events\<close>, from \<open>boot_state\<close>: the controller is switched on, the screen goes
  off and the power-saving tick leaves cpu0 alone online; this is \<open>suspended_state\<close>.
  \<open>resume_events\<close>, from there: the screen comes back on and the kernel fails every
  \<open>cpu_up\<close> of the tick that should bring all cores online; this is \<open>resumed_state\<close>,
  sampling with cpu0 alone online.
  \<open>refused_state\<close>: the controller switched off from \<open>suspended_state\<close> by a write of
  0 to \<open>active\<close>, the kernel having refused \<open>cpu_up\<close> of cpu7 in the tick that followed.
  \<open>stranded_events\<close>, from \<open>lone_boot_state\<close>: the controller is switched on, the
  kernel fails every \<open>cpu_up\<close>, the screen goes off and the power-saving tick takes cpu5
  offline while \<open>cpu_up\<close> of cpu0 fails, the screen comes back on and the kernel fails
  every \<open>cpu_up\<close> again; this is \<open>stranded_state\<close>, sampling with no core online.
\<close>

definition suspend_events :: "event list" where
  "suspend_events =
     [Write_active (Inr 1), Tick accept_all busy_times, Lcd LCD_EVENT_OFF_END,
      Tick accept_all busy_times]"



definition refused_state :: state where
  "refused_state =
     boot_state\<lparr>screen_on := False, workqueue_suspended := False,
       online_mask := (\<lambda>cpu. cpu < 7)\<rparr>"



section \<open>Which fields the hotplug functions touch\<close>

lemma switch_cpu_eq:
  "switch_cpu hw c off s =
     s\<lparr>online_mask := (online_mask s)(c := (if hw c then \<not> off else online_mask s c)),
        dev_offline := (dev_offline s)(c := off)\<rparr>"
  by (simp add: switch_cpu_def cpu_online_def cpu_is_offline_def cpu_up_def cpu_down_def
      set_dev_offline_def fun_upd_idem)

lemma frame_switch_cpu:
  "\<exists>m d. switch_cpu hw c off s = s\<lparr>online_mask := m, dev_offline := d\<rparr>"
  unfolding switch_cpu_eq by blast

lemma frame_refl: "\<exists>m d. s = s\<lparr>online_mask := m, dev_offline := d\<rparr>"
proof -
  have "s = s\<lparr>online_mask := online_mask s, dev_offline := dev_offline s\<rparr>" by simp
  then show ?thesis by blast
qed

lemma frame_trans:
  assumes "\<exists>m d. s1 = s\<lparr>online_mask := m, dev_offline := d\<rparr>"
    and "\<exists>m d. s2 = s1\<lparr>online_mask := m, dev_offline := d\<rparr>"
  shows "\<exists>m d. s2 = s\<lparr>online_mask := m, dev_offline := d\<rparr>"
proof -
  from assms(1) obtain m d where 1: "s1 = s\<lparr>online_mask := m, dev_offline := d\<rparr>" by blast
  from assms(2) obtain m' d' where 2: "s2 = s1\<lparr>online_mask := m', dev_offline := d'\<rparr>" by blast
  have "s2 = s\<lparr>online_mask := m', dev_offline := d'\<rparr>" by (simp add: 1 2)
  then show ?thesis by blast
qed

lemma frame_if:
  "\<exists>m d. (if b then switch_cpu hw c off s else s) = s\<lparr>online_mask := m, dev_offline := d\<rparr>"
  using frame_switch_cpu frame_refl by (cases b) simp_all

lemma frame_disable_big_loop:
  "\<exists>m d. disable_big_loop hw cs s = s\<lparr>online_mask := m, dev_offline := d\<rparr>"
proof (induction cs arbitrary: s)
  case Nil
  show ?case using frame_refl by simp
next
  case (Cons c cs)
  show ?case
    unfolding disable_big_loop.simps
    by (rule frame_trans [OF frame_if Cons.IH])
qed

lemma frame_enable_little_loop:
  "\<exists>m d. enable_little_loop hw cs r s = s\<lparr>online_mask := m, dev_offline := d\<rparr>"
proof (induction cs arbitrary: r s)
  case Nil
  show ?case using frame_refl by simp
next
  case (Cons c cs)
  show ?case
  proof (cases "is_little_cpu c")
    case False
    then show ?thesis using Cons.IH by simp
  next
    case little: True
    show ?thesis
    proof (cases "r > 0")
      case True
      have "\<exists>m d. enable_little_loop hw cs (r - 1)
                (if \<not> cpu_online s c then switch_cpu hw c False s else s)
              = s\<lparr>online_mask := m, dev_offline := d\<rparr>"
        by (rule frame_trans [OF frame_if Cons.IH])
      with little True show ?thesis by simp
    next
      case False
      have "\<exists>m d. enable_little_loop hw cs r
                (if cpu_online s c then switch_cpu hw c True s else s)
              = s\<lparr>online_mask := m, dev_offline := d\<rparr>"
        by (rule frame_trans [OF frame_if Cons.IH])
      with little False show ?thesis by simp
    qed
  qed
qed

lemma up_step_eq:
  "set_dev_offline c v (cpu_up hw c s) =
     s\<lparr>online_mask := (online_mask s)(c := (hw c \<or> online_mask s c)),
        dev_offline := (dev_offline s)(c := v)\<rparr>"
  by (simp add: set_dev_offline_def cpu_up_def fun_upd_idem)

lemma down_step_eq:
  "set_dev_offline c v (cpu_down hw c s) =
     s\<lparr>online_mask := (online_mask s)(c := (\<not> hw c \<and> online_mask s c)),
        dev_offline := (dev_offline s)(c := v)\<rparr>"
  by (simp add: set_dev_offline_def cpu_down_def fun_upd_idem)

lemma frame_cpu_up:
  "\<exists>m d. set_dev_offline c v (cpu_up hw c s) = s\<lparr>online_mask := m, dev_offline := d\<rparr>"
  unfolding up_step_eq by blast

lemma frame_cpu_down:
  "\<exists>m d. set_dev_offline c v (cpu_down hw c s) = s\<lparr>online_mask := m, dev_offline := d\<rparr>"
  unfolding down_step_eq by blast

lemma frame_if_up:
  "\<exists>m d. (if b then set_dev_offline c v (cpu_up hw c s) else s)
      = s\<lparr>online_mask := m, dev_offline := d\<rparr>"
  using frame_cpu_up frame_refl by (cases b) simp_all

lemma frame_optimized_online_all_loop:
  "\<exists>m d. optimized_online_all_loop hw n s = s\<lparr>online_mask := m, dev_offline := d\<rparr>"
proof (induction n arbitrary: s)
  case 0
  show ?case unfolding optimized_online_all_loop.simps by (rule frame_if_up)
next
  case (Suc n)
  show ?case unfolding optimized_online_all_loop.simps
    by (rule frame_trans [OF frame_if_up Suc.IH])
qed

lemma frame_online_one_cpu_loop:
  "\<exists>m d. online_one_cpu_loop hw n s = s\<lparr>online_mask := m, dev_offline := d\<rparr>"
proof (induction n)
  case 0
  show ?case using frame_refl by simp
next
  case (Suc n)
  show ?case
  proof (cases "cpu_is_offline s (Suc n)")
    case True
    then show ?thesis using frame_cpu_up [of "Suc n" False hw s] by simp
  next
    case False
    then show ?thesis using Suc.IH by simp
  qed
qed

lemma frame_offline_one_cpu_loop:
  "\<exists>m d. offline_one_cpu_loop hw n s = s\<lparr>online_mask := m, dev_offline := d\<rparr>"
proof (induction n)
  case 0
  show ?case using frame_refl by simp
next
  case (Suc n)
  show ?case
  proof (cases "cpu_online s (Suc n)")
    case True
    then show ?thesis using frame_cpu_down [of "Suc n" True hw s] by simp
  next
    case False
    then show ?thesis using Suc.IH by simp
  qed
qed

lemma frame_optimized_online_all:
  "\<exists>m d. optimized_online_all hw s = s\<lparr>online_mask := m, dev_offline := d\<rparr>"
  unfolding optimized_online_all_def by (rule frame_optimized_online_all_loop)

lemma frame_fields:
  assumes "\<exists>m d. s' = s\<lparr>online_mask := m, dev_offline := d\<rparr>"
  shows "load_threshold_down s' = load_threshold_down s"
    and "load_threshold_up s' = load_threshold_up s"
    and "sampling_time s' = sampling_time s"
    and "vote_threshold_down s' = vote_threshold_down s"
    and "vote_threshold_up s' = vote_threshold_up s"
    and "max_cores_screenoff s' = max_cores_screenoff s"
    and "active s' = active s"
    and "workqueue_suspended s' = workqueue_suspended s"
    and "screen_on s' = screen_on s"
    and "big_cluster_enabled s' = big_cluster_enabled s"
    and "little_cluster_enabled s' = little_cluster_enabled s"
    and "low_power_mode s' = low_power_mode s"
    and "screen_off_power_mode s' = screen_off_power_mode s"
    and "online_all s' = online_all s"
    and "vote_up s' = vote_up s"
    and "vote_down s' = vote_down s"
    and "cp_info s' = cp_info s"
    and "work_pending s' = work_pending s"
  using assms by auto

lemmas disable_big_loop_fields = frame_fields [OF frame_disable_big_loop]
lemmas enable_little_loop_fields = frame_fields [OF frame_enable_little_loop]
lemmas optimized_online_all_keeps = frame_fields [OF frame_optimized_online_all]
lemmas online_one_cpu_loop_fields = frame_fields [OF frame_online_one_cpu_loop]
lemmas offline_one_cpu_loop_fields = frame_fields [OF frame_offline_one_cpu_loop]

section \<open>Which cores the loops leave online\<close>

text \<open>
  A core the driver asks to switch changes when the kernel carries the switch out, and
  stays as it was when the call fails.
\<close>

lemma disable_big_loop_mask:
  "online_mask (disable_big_loop hw cs s) c =
     (online_mask s c \<and> \<not> (c \<in> set cs \<and> is_big_cpu c \<and> hw c))"
proof (induction cs arbitrary: s)
  case Nil
  show ?case by simp
next
  case (Cons a cs)
  show ?case
    unfolding disable_big_loop.simps Cons.IH
    by (auto simp: cpu_online_def switch_cpu_eq)
qed

lemma optimized_online_all_loop_mask:
  "online_mask (optimized_online_all_loop hw n s) c = (online_mask s c \<or> (c \<le> n \<and> hw c))"
proof (induction n arbitrary: s)
  case 0
  show ?case by (auto simp: cpu_is_offline_def cpu_online_def up_step_eq)
next
  case (Suc n)
  show ?case
    unfolding optimized_online_all_loop.simps Suc.IH
    by (auto simp: cpu_is_offline_def cpu_online_def up_step_eq)
qed

text \<open>The driver clears the device's offline flag of every core it found offline.\<close>

lemma optimized_online_all_loop_flag:
  "dev_offline (optimized_online_all_loop hw n s) c =
     (dev_offline s c \<and> \<not> (c \<le> n \<and> \<not> online_mask s c))"
proof (induction n arbitrary: s)
  case 0
  show ?case by (auto simp: cpu_is_offline_def cpu_online_def up_step_eq)
next
  case (Suc n)
  show ?case
    unfolding optimized_online_all_loop.simps Suc.IH
    by (auto simp: cpu_is_offline_def cpu_online_def up_step_eq)
qed

text \<open>
  \<open>enable_little_cluster\<close> asks for the first \<open>required_cpus\<close> little cores of its walk
  to be switched on and for the little cores after them to be switched off.
\<close>

lemma enable_little_loop_mask:
  "distinct cs \<Longrightarrow>
   online_mask (enable_little_loop hw cs r s) c =
     (if c \<in> set (take (unat r) (filter is_little_cpu cs)) then online_mask s c \<or> hw c
      else if c \<in> set (drop (unat r) (filter is_little_cpu cs)) then online_mask s c \<and> \<not> hw c
      else online_mask s c)"
proof (induction cs arbitrary: r s)
  case Nil
  show ?case by simp
next
  case (Cons a cs)
  from Cons.prems have d: "distinct cs" and a: "a \<notin> set cs" by simp_all
  note IH = Cons.IH [OF d]
  show ?case
  proof (cases "is_little_cpu a")
    case False
    then show ?thesis by (simp add: IH)
  next
    case little: True
    show ?thesis
    proof (cases "r > 0")
      case True
      then have "unat r \<noteq> 0" by (simp add: unat_gt_0 word_greater_zero_iff)
      then obtain k where k: "unat r = Suc k" by (cases "unat r") simp_all
      have k': "unat (r - 1) = k"
        using k True by (simp add: unat_minus_one word_greater_zero_iff)
      have n1: "a \<notin> set (take k (filter is_little_cpu cs))"
        using a by (meson in_set_takeD filter_is_subset subsetD)
      have n2: "a \<notin> set (drop k (filter is_little_cpu cs))"
        using a by (meson in_set_dropD filter_is_subset subsetD)
      show ?thesis
        using little True n1 n2
        by (auto simp add: IH k k' switch_cpu_eq cpu_online_def)
    next
      case False
      then have r0: "r = 0" by (simp add: word_greater_zero_iff)
      have n2: "a \<notin> set (filter is_little_cpu cs)" using a by simp
      show ?thesis
        using little n2
        by (auto simp add: IH r0 switch_cpu_eq cpu_online_def)
    qed
  qed
qed

lemma online_one_cpu_loop_above:
  "n < c \<Longrightarrow> online_mask (online_one_cpu_loop hw n s) c = online_mask s c \<and>
     dev_offline (online_one_cpu_loop hw n s) c = dev_offline s c"
  by (induction n) (simp_all add: up_step_eq)

lemma online_one_cpu_loop_zero:
  "online_mask (online_one_cpu_loop hw n s) 0 = online_mask s 0 \<and>
     dev_offline (online_one_cpu_loop hw n s) 0 = dev_offline s 0"
  by (induction n) (simp_all add: up_step_eq)

lemma offline_one_cpu_loop_above:
  "n < c \<Longrightarrow> online_mask (offline_one_cpu_loop hw n s) c = online_mask s c \<and>
     dev_offline (offline_one_cpu_loop hw n s) c = dev_offline s c"
  by (induction n) (simp_all add: down_step_eq)

lemma offline_one_cpu_loop_zero:
  "online_mask (offline_one_cpu_loop hw n s) 0 = online_mask s 0 \<and>
     dev_offline (offline_one_cpu_loop hw n s) 0 = dev_offline s 0"
  by (induction n) (simp_all add: down_step_eq)

lemma optimized_online_all_mask:
  "online_mask (optimized_online_all hw s) c = (online_mask s c \<or> (c \<le> 7 \<and> hw c))"
  by (simp add: optimized_online_all_def optimized_online_all_loop_mask)

lemma optimized_online_all_flag:
  "dev_offline (optimized_online_all hw s) c =
     (dev_offline s c \<and> \<not> (c \<le> 7 \<and> \<not> online_mask s c))"
  by (simp add: optimized_online_all_def optimized_online_all_loop_flag)

lemma little_cpus_present: "filter is_little_cpu present_cpus = [0..<4]"
  by (simp add: present_cpus_def is_little_cpu_def N_LITTLE_CPUS_def upt_conv_Cons)

lemma set_take_upt4: "c \<in> set (take n [0..<4]) \<longleftrightarrow> c < n \<and> c < 4"
proof (cases "n \<le> 4")
  case True
  then have "take n [0..<4] = [0..<n]" using take_upt [of 0 n 4] by simp
  with True show ?thesis by auto
next
  case False
  then show ?thesis by auto
qed

lemma enable_little_loop_present:
  "online_mask (enable_little_loop hw present_cpus r s) c =
     (if c < 4 then (if c < unat r then online_mask s c \<or> hw c else online_mask s c \<and> \<not> hw c)
      else online_mask s c)"
proof -
  have d: "distinct present_cpus" by (simp add: present_cpus_def)
  show ?thesis
    unfolding enable_little_loop_mask [OF d] little_cpus_present set_take_upt4
    by (auto simp: drop_upt)
qed

lemma disable_big_loop_present:
  "online_mask (disable_big_loop hw present_cpus s) c =
     (online_mask s c \<and> \<not> (4 \<le> c \<and> c < 8 \<and> hw c))"
  unfolding disable_big_loop_mask
  by (auto simp: present_cpus_def is_big_cpu_def N_LITTLE_CPUS_def)


text \<open>\<open>optimized_online_all\<close> in closed form.\<close>

lemma optimized_online_all_eq:
  "optimized_online_all hw s =
     s\<lparr>online_mask := (\<lambda>c. online_mask s c \<or> (c \<le> 7 \<and> hw c)),
        dev_offline := (\<lambda>c. dev_offline s c \<and> \<not> (c \<le> 7 \<and> \<not> online_mask s c))\<rparr>"
proof -
  from frame_optimized_online_all [of hw s] obtain m d
    where e: "optimized_online_all hw s = s\<lparr>online_mask := m, dev_offline := d\<rparr>"
    by blast
  have "online_mask (optimized_online_all hw s) = m" "dev_offline (optimized_online_all hw s) = d"
    by (simp_all add: e)
  then have m: "m = (\<lambda>c. online_mask s c \<or> (c \<le> 7 \<and> hw c))"
    and d: "d = (\<lambda>c. dev_offline s c \<and> \<not> (c \<le> 7 \<and> \<not> online_mask s c))"
    by (auto simp: fun_eq_iff optimized_online_all_mask optimized_online_all_flag)
  show ?thesis unfolding e m d ..
qed

lemma present_cpus_set: "c \<in> set present_cpus \<longleftrightarrow> c < 8"
  by (simp add: present_cpus_def) presburger

section \<open>The core switcher\<close>

text \<open>
  C5. \<open>online_one_cpu\<close> and \<open>offline_one_cpu\<close> never change cpu0 or cpu7 (core
  \<open>N - 1\<close>), in any state and whatever the kernel answers: neither the kernel's online
  mask nor the device's offline flag of these two cores is written.
\<close>

theorem anchor_cores_untouched:
  assumes "c = 0 \<or> c = N_LITTLE_CPUS + N_BIG_CPUS - 1"
  shows "cpu_online (online_one_cpu hw s) c = cpu_online s c
       \<and> cpu_online (offline_one_cpu hw s) c = cpu_online s c
       \<and> dev_offline (online_one_cpu hw s) c = dev_offline s c
       \<and> dev_offline (offline_one_cpu hw s) c = dev_offline s c"
proof -
  from assms have "c = 0 \<or> c = 7" by (simp add: N_LITTLE_CPUS_def N_BIG_CPUS_def)
  then show ?thesis
  proof
    assume "c = 0"
    then show ?thesis
      using online_one_cpu_loop_zero [of hw 6 s] offline_one_cpu_loop_zero [of hw 6 s]
      by (simp add: online_one_cpu_def offline_one_cpu_def cpu_online_def)
  next
    assume "c = 7"
    then show ?thesis
      using online_one_cpu_loop_above [of 6 7 hw s] offline_one_cpu_loop_above [of 6 7 hw s]
      by (simp add: online_one_cpu_def offline_one_cpu_def cpu_online_def)
  qed
qed

theorem anchor_cores_untouched_witness:
  "(7 = (0::nat) \<or> (7::nat) = N_LITTLE_CPUS + N_BIG_CPUS - 1)
   \<and> cpu_online (online_one_cpu accept_all boot_state) 7 = cpu_online boot_state 7
   \<and> cpu_online (offline_one_cpu accept_all boot_state) 7 = cpu_online boot_state 7
   \<and> dev_offline (online_one_cpu accept_all boot_state) 7 = dev_offline boot_state 7
   \<and> dev_offline (offline_one_cpu accept_all boot_state) 7 = dev_offline boot_state 7
   \<and> cpu_online boot_state 7"
proof -
  have h: "7 = (0::nat) \<or> (7::nat) = N_LITTLE_CPUS + N_BIG_CPUS - 1"
    by (simp add: N_LITTLE_CPUS_def N_BIG_CPUS_def)
  show ?thesis
    using h anchor_cores_untouched [OF h, of accept_all boot_state]
    by (simp add: boot_state_def init_state_def cpu_online_def)
qed

text \<open>
  C2, as the code has it. Both functions walk the same order, 6, 5, 4, 3, 2, 1: the big
  cores 6, 5, 4 first, the little cores 3, 2, 1 after them. \<open>online_one_cpu\<close> switches
  on the first core of that order that is offline, \<open>offline_one_cpu\<close> switches off the
  first one that is online, and each leaves the state as it is when it finds none.
  Removal does not walk the reverse order.
\<close>

theorem switcher_scan_order:
  "online_one_cpu hw s =
     (case List.find (cpu_is_offline s) [6, 5, 4, 3, 2, 1] of
        None \<Rightarrow> s
      | Some c \<Rightarrow> set_dev_offline c False (cpu_up hw c s))
   \<and> offline_one_cpu hw s =
     (case List.find (cpu_online s) [6, 5, 4, 3, 2, 1] of
        None \<Rightarrow> s
      | Some c \<Rightarrow> set_dev_offline c True (cpu_down hw c s))
   \<and> is_big_cpu 6 \<and> is_big_cpu 5 \<and> is_big_cpu 4
   \<and> is_little_cpu 3 \<and> is_little_cpu 2 \<and> is_little_cpu 1"
  by (simp add: online_one_cpu_def offline_one_cpu_def eval_nat_numeral is_big_cpu_def
      is_little_cpu_def N_LITTLE_CPUS_def)

theorem switcher_scan_order_witness:
  "online_one_cpu accept_all boot_state = boot_state
   \<and> offline_one_cpu accept_all boot_state
       = set_dev_offline 6 True (cpu_down accept_all 6 boot_state)"
  using switcher_scan_order [of accept_all boot_state]
  by (simp add: boot_state_def init_state_def cpu_online_def cpu_is_offline_def)

text \<open>
  With every core online, the three little cores 1, 2 and 3 are candidates for
  removal, and \<open>offline_one_cpu\<close> takes the big core 6 offline and leaves them online.
\<close>

theorem remove_order_counterexample:
  "is_little_cpu 1 \<and> is_little_cpu 2 \<and> is_little_cpu 3 \<and> is_big_cpu 6
   \<and> cpu_online boot_state 1 \<and> cpu_online boot_state 2 \<and> cpu_online boot_state 3
   \<and> cpu_online (offline_one_cpu accept_all boot_state) 1
   \<and> cpu_online (offline_one_cpu accept_all boot_state) 2
   \<and> cpu_online (offline_one_cpu accept_all boot_state) 3
   \<and> \<not> cpu_online (offline_one_cpu accept_all boot_state) 6"
  by (simp add: offline_one_cpu_def eval_nat_numeral is_big_cpu_def is_little_cpu_def
      N_LITTLE_CPUS_def boot_state_def init_state_def cpu_online_def cpu_down_def
      set_dev_offline_def accept_all_def)

section \<open>Sampling\<close>

lemma get_delta_frame:
  "snd (get_delta_cpu_load_and_update tm c s) =
     s\<lparr>cp_info := (cp_info s)(c := \<lparr>prev_cpu_wall = snd (tm c), prev_cpu_idle = fst (tm c)\<rparr>)\<rparr>"
  by (simp add: get_delta_cpu_load_and_update_def Let_def split: prod.split)

lemma calculateLoad_loop_step:
  "\<exists>acc'. calculateLoad_loop tm (c # cs) acc s =
      calculateLoad_loop tm cs acc' (snd (get_delta_cpu_load_and_update tm c s))"
proof -
  obtain cpus b l where acc: "acc = (cpus, b, l)" by (metis surj_pair)
  obtain ld s1 where g: "get_delta_cpu_load_and_update tm c s = (ld, s1)" by (metis surj_pair)
  show ?thesis
    unfolding acc calculateLoad_loop.simps g by simp blast
qed

lemma calculateLoad_loop_frame:
  "\<exists>ci. snd (calculateLoad_loop tm cs acc s) = s\<lparr>cp_info := ci\<rparr>"
proof (induction cs arbitrary: acc s)
  case Nil
  show ?case by (rule exI [of _ "cp_info s"]) simp
next
  case (Cons c cs)
  define s1 where "s1 = snd (get_delta_cpu_load_and_update tm c s)"
  from calculateLoad_loop_step obtain acc' where
    st: "calculateLoad_loop tm (c # cs) acc s = calculateLoad_loop tm cs acc' s1"
    unfolding s1_def by blast
  from get_delta_frame [of tm c s] obtain ci1 where s1: "s1 = s\<lparr>cp_info := ci1\<rparr>"
    unfolding s1_def by blast
  from Cons.IH [of acc' s1] obtain ci where
    "snd (calculateLoad_loop tm cs acc' s1) = s1\<lparr>cp_info := ci\<rparr>"
    by blast
  then have "snd (calculateLoad_loop tm (c # cs) acc s) = s\<lparr>cp_info := ci\<rparr>"
    unfolding st s1 by simp
  then show ?case by blast
qed

lemma calculateLoad_frame:
  assumes "calculateLoad tm s = Some (load, s')"
  shows "\<exists>ci. s' = s\<lparr>cp_info := ci\<rparr>"
proof -
  obtain cpus b l s1 where r: "calculateLoad_loop tm possible_cpus (0, 0, 0) s = ((cpus, b, l), s1)"
    by (metis surj_pair)
  from calculateLoad_loop_frame [of tm possible_cpus "(0, 0, 0)" s] r
  obtain ci where "s1 = s\<lparr>cp_info := ci\<rparr>" by auto
  moreover from assms have "s' = s1"
    unfolding calculateLoad_def r by (cases "cpus = 0") simp_all
  ultimately show ?thesis by blast
qed

lemma calculateLoad_loop_count:
  "fst (fst (calculateLoad_loop tm cs (cpus, b, l) s)) =
     cpus + of_nat (length (filter (online_mask s) cs))"
proof (induction cs arbitrary: cpus b l s)
  case Nil
  show ?case by simp
next
  case (Cons c cs)
  obtain ld s1 where g: "get_delta_cpu_load_and_update tm c s = (ld, s1)" by force
  from get_delta_frame [of tm c s] g obtain ci1 where s1: "s1 = s\<lparr>cp_info := ci1\<rparr>" by simp
  show ?case
    by (simp add: g Cons.IH cpu_online_def s1)
qed

lemma cpu_count_nonzero:
  assumes "0 < k" and "k \<le> 8"
  shows "(of_nat k :: u32) \<noteq> 0"
proof
  assume "(of_nat k :: u32) = 0"
  then have "2 ^ LENGTH(32) dvd k" by (simp only: word_of_nat_eq_0_iff)
  then have "(2::nat) ^ LENGTH(32) \<le> k" using assms(1) by (rule dvd_imp_le)
  with assms(2) show False by simp
qed

text \<open>With a core online the divisor is between 1 and 8, and the division is defined.\<close>

lemma calculateLoad_total:
  assumes "c \<in> set possible_cpus" and "online_mask s c"
  shows "\<exists>load s'. calculateLoad tm s = Some (load, s')"
proof -
  define k where "k = length (filter (online_mask s) possible_cpus)"
  obtain cpus b l s1 where
    r: "calculateLoad_loop tm possible_cpus (0, 0, 0) s = ((cpus, b, l), s1)"
    by (metis surj_pair)
  from calculateLoad_loop_count [of tm possible_cpus 0 0 0 s] r
  have cpus: "cpus = of_nat k" by (simp add: k_def)
  have "c \<in> set (filter (online_mask s) possible_cpus)"
    using assms by simp
  then have "filter (online_mask s) possible_cpus \<noteq> []" by (metis empty_iff empty_set)
  then have "0 < k" by (simp add: k_def)
  moreover have "k \<le> length possible_cpus" unfolding k_def by (rule length_filter_le)
  then have "k \<le> 8" by (simp add: possible_cpus_def)
  ultimately have "cpus \<noteq> 0" unfolding cpus by (rule cpu_count_nonzero)
  then show ?thesis unfolding calculateLoad_def r by simp
qed


section \<open>Voting\<close>

lemma uint_dec_floor:
  fixes x :: u32
  shows "uint (if x > 0 then x - 1 else x) = max 0 (uint x - 1)"
proof (cases "x = 0")
  case True
  then show ?thesis by simp
next
  case False
  then have "uint x \<noteq> 0" by (simp add: uint_0_iff)
  moreover have "0 \<le> uint x" by simp
  ultimately have pos: "1 \<le> uint x" by linarith
  then have "uint (1::u32) \<le> uint x" by simp
  then have "uint (x - 1) = uint x - uint (1::u32)" by (rule uint_sub_lem [THEN iffD1])
  then have "uint (x - 1) = uint x - 1" by simp
  moreover have "x > 0" using False by (simp add: word_greater_zero_iff)
  ultimately show ?thesis using pos by simp
qed

lemma cast_vote_up:
  "load > load_threshold_up s \<Longrightarrow>
     cast_vote load s =
       s\<lparr>vote_up := vote_up s + 1,
          vote_down := (if vote_down s > 0 then vote_down s - 1 else vote_down s)\<rparr>"
  by (simp add: cast_vote_def Let_def)

lemma cast_vote_down:
  "\<not> load > load_threshold_up s \<Longrightarrow> load < load_threshold_down s \<Longrightarrow>
     cast_vote load s =
       s\<lparr>vote_down := vote_down s + 1,
          vote_up := (if vote_up s > 0 then vote_up s - 1 else vote_up s)\<rparr>"
  by (simp add: cast_vote_def Let_def)

lemma cast_vote_dead:
  "\<not> load > load_threshold_up s \<Longrightarrow> \<not> load < load_threshold_down s \<Longrightarrow> cast_vote load s = s"
  by (simp add: cast_vote_def)

lemma cast_vote_fields:
  "load_threshold_down (cast_vote l s) = load_threshold_down s"
  "load_threshold_up (cast_vote l s) = load_threshold_up s"
  "sampling_time (cast_vote l s) = sampling_time s"
  "vote_threshold_down (cast_vote l s) = vote_threshold_down s"
  "vote_threshold_up (cast_vote l s) = vote_threshold_up s"
  "max_cores_screenoff (cast_vote l s) = max_cores_screenoff s"
  "active (cast_vote l s) = active s"
  "workqueue_suspended (cast_vote l s) = workqueue_suspended s"
  "screen_on (cast_vote l s) = screen_on s"
  "big_cluster_enabled (cast_vote l s) = big_cluster_enabled s"
  "little_cluster_enabled (cast_vote l s) = little_cluster_enabled s"
  "low_power_mode (cast_vote l s) = low_power_mode s"
  "screen_off_power_mode (cast_vote l s) = screen_off_power_mode s"
  "online_all (cast_vote l s) = online_all s"
  "cp_info (cast_vote l s) = cp_info s"
  "online_mask (cast_vote l s) = online_mask s"
  "dev_offline (cast_vote l s) = dev_offline s"
  "work_pending (cast_vote l s) = work_pending s"
  by (simp_all add: cast_vote_def Let_def)

lemma online_one_cpu_loop_votes:
  "online_one_cpu_loop hw n (s\<lparr>vote_up := u, vote_down := v\<rparr>) =
     (online_one_cpu_loop hw n s)\<lparr>vote_up := u, vote_down := v\<rparr>"
  by (induction n) (simp_all add: cpu_is_offline_def cpu_online_def up_step_eq)

lemma offline_one_cpu_loop_votes:
  "offline_one_cpu_loop hw n (s\<lparr>vote_up := u, vote_down := v\<rparr>) =
     (offline_one_cpu_loop hw n s)\<lparr>vote_up := u, vote_down := v\<rparr>"
  by (induction n) (simp_all add: cpu_online_def down_step_eq)

text \<open>
  \<open>observe\<close> is the voting of \<open>cluster_plug_perform\<close>: the function does what
  \<open>observe\<close> decides on the load it computed.
\<close>

lemma cluster_plug_perform_observe:
  "cluster_plug_perform hw tm s =
     (case calculateLoad tm s of
        None \<Rightarrow> None
      | Some (load, s0) \<Rightarrow>
          Some (apply_action hw (fst (observe load s0)) (snd (observe load s0))))"
  by (simp add: cluster_plug_perform_def observe_def Let_def online_one_cpu_def
      offline_one_cpu_def online_one_cpu_loop_votes offline_one_cpu_loop_votes
      split: option.split)

section \<open>What a tick, a notification and a write leave alone\<close>

text \<open>What one voting cycle leaves alone.\<close>

lemma cluster_plug_perform_keeps:
  assumes "cluster_plug_perform hw tm s = Some s'"
  shows "low_power_mode s' = low_power_mode s"
    and "screen_off_power_mode s' = screen_off_power_mode s"
    and "active s' = active s"
    and "sampling_time s' = sampling_time s"
    and "work_pending s' = work_pending s"
    and "workqueue_suspended s' = workqueue_suspended s"
    and "big_cluster_enabled s' = big_cluster_enabled s"
    and "online_mask s' 0 = online_mask s 0"
proof -
  from assms obtain load s0 where c: "calculateLoad tm s = Some (load, s0)"
    by (auto simp: cluster_plug_perform_def split: option.splits)
  from calculateLoad_frame [OF c] obtain ci where s0: "s0 = s\<lparr>cp_info := ci\<rparr>" by blast
  define s1 where "s1 = cast_vote load s0"
  have s': "s' = (if vote_up s1 > vote_threshold_up s1 then
                (online_one_cpu hw s1)\<lparr>vote_up := 0, vote_down := 0\<rparr>
              else if vote_down s1 > vote_threshold_down s1 then
                (offline_one_cpu hw s1)\<lparr>vote_up := 0, vote_down := 0\<rparr>
              else s1)"
    using assms by (simp add: cluster_plug_perform_def c s1_def Let_def split: if_splits)
  show "low_power_mode s' = low_power_mode s"
    and "screen_off_power_mode s' = screen_off_power_mode s"
    and "active s' = active s"
    and "sampling_time s' = sampling_time s"
    and "work_pending s' = work_pending s"
    and "workqueue_suspended s' = workqueue_suspended s"
    and "big_cluster_enabled s' = big_cluster_enabled s"
    and "online_mask s' 0 = online_mask s 0"
    unfolding s'
    by (simp_all add: online_one_cpu_def offline_one_cpu_def online_one_cpu_loop_fields
        offline_one_cpu_loop_fields online_one_cpu_loop_zero offline_one_cpu_loop_zero
        s1_def cast_vote_fields s0)
qed



lemma suspend_path_fields:
  "low_power_mode (disable_big_cluster hw (enable_little_cluster hw s)) = low_power_mode s"
  "screen_off_power_mode (disable_big_cluster hw (enable_little_cluster hw s))
     = screen_off_power_mode s"
  "work_pending (disable_big_cluster hw (enable_little_cluster hw s)) = work_pending s"
  "active (disable_big_cluster hw (enable_little_cluster hw s)) = active s"
  by (simp_all add: disable_big_cluster_def enable_little_cluster_def Let_def
      disable_big_loop_fields enable_little_loop_fields)

lemma cluster_plug_work_fn_unfold:
  "cluster_plug_work_fn hw tm s =
     (if online_all s then
        (if active s then
           Some ((queue_clusterplug_work (sampling_time s)
                   ((optimized_online_all hw s)
                      \<lparr>big_cluster_enabled := True, little_cluster_enabled := True\<rparr>))
                 \<lparr>online_all := False\<rparr>)
         else
           Some ((optimized_online_all hw s)
                   \<lparr>big_cluster_enabled := True, little_cluster_enabled := True,
                      online_all := False\<rparr>))
      else if active s then
        (if (screen_on s \<or> screen_off_power_mode s) \<and> \<not> low_power_mode s then
           (case cluster_plug_perform hw tm s of
              None \<Rightarrow> None
            | Some s2 \<Rightarrow>
                Some ((queue_clusterplug_work (sampling_time s2) s2)\<lparr>online_all := False\<rparr>))
         else
           Some ((disable_big_cluster hw (enable_little_cluster hw s))
                   \<lparr>workqueue_suspended := True\<rparr>))
      else Some (s\<lparr>online_all := False\<rparr>))"
  by (simp add: cluster_plug_work_fn_def Let_def optimized_online_all_keeps)

lemma cluster_plug_work_fn_keeps:
  assumes "cluster_plug_work_fn hw tm s = Some s'"
  shows "low_power_mode s' = low_power_mode s"
    and "screen_off_power_mode s' = screen_off_power_mode s"
    and "active s' = active s"
  using assms unfolding cluster_plug_work_fn_unfold
  by (auto simp: queue_clusterplug_work_def suspend_path_fields cluster_plug_perform_keeps
      optimized_online_all_keeps split: if_splits option.splits)


text \<open>
  A tick samples only with the controller active and \<open>online_all\<close> clear; with cpu0
  online then, it does not divide by zero.
\<close>

lemma cluster_plug_work_fn_total:
  assumes "active s \<longrightarrow> online_all s \<or> online_mask s 0"
  shows "\<exists>s'. cluster_plug_work_fn hw tm s = Some s'"
proof (cases "active s \<and> \<not> online_all s")
  case True
  with assms have "online_mask s 0" by simp
  moreover have "0 \<in> set possible_cpus" by (simp add: possible_cpus_def)
  ultimately obtain load s0 where "calculateLoad tm s = Some (load, s0)"
    using calculateLoad_total by blast
  then have "\<exists>s3. cluster_plug_perform hw tm s = Some s3"
    by (simp add: cluster_plug_perform_def Let_def)
  then show ?thesis unfolding cluster_plug_work_fn_unfold by auto
next
  case False
  then show ?thesis unfolding cluster_plug_work_fn_unfold by auto
qed

lemma run_pending_work_keeps:
  assumes "run_pending_work hw tm s = Some s'"
  shows "low_power_mode s' = low_power_mode s"
    and "screen_off_power_mode s' = screen_off_power_mode s"
    and "active s' = active s"
proof -
  show "low_power_mode s' = low_power_mode s"
    using assms cluster_plug_work_fn_keeps(1) [of hw tm "s\<lparr>work_pending := None\<rparr>" s']
    by (cases "work_pending s") (simp_all add: run_pending_work_def)
  show "screen_off_power_mode s' = screen_off_power_mode s"
    using assms cluster_plug_work_fn_keeps(2) [of hw tm "s\<lparr>work_pending := None\<rparr>" s']
    by (cases "work_pending s") (simp_all add: run_pending_work_def)
  show "active s' = active s"
    using assms cluster_plug_work_fn_keeps(3) [of hw tm "s\<lparr>work_pending := None\<rparr>" s']
    by (cases "work_pending s") (simp_all add: run_pending_work_def)
qed



lemma lcd_notifier_callback_keeps:
  "low_power_mode (lcd_notifier_callback ev s) = low_power_mode s"
  "screen_off_power_mode (lcd_notifier_callback ev s) = screen_off_power_mode s"
  "online_mask (lcd_notifier_callback ev s) = online_mask s"
  "active (lcd_notifier_callback ev s) = active s"
  "online_all s \<Longrightarrow> online_all (lcd_notifier_callback ev s)"
  by (simp_all add: lcd_notifier_callback_def cluster_plug_hotplug_suspend_def
      cluster_plug_hotplug_resume_def queue_clusterplug_work_def queue_work_def Let_def
      split: lcd_event.split)




lemma param_set_uint_keeps:
  "online_mask (snd (param_set_uint p uparsed s)) = online_mask s"
  "low_power_mode (snd (param_set_uint p uparsed s)) = low_power_mode s"
  "screen_off_power_mode (snd (param_set_uint p uparsed s)) = screen_off_power_mode s"
  "active (snd (param_set_uint p uparsed s)) = active s"
  "online_all (snd (param_set_uint p uparsed s)) = online_all s"
  by (cases p; simp add: param_set_uint_def split: sum.split)+

lemma active_store_keeps_modes:
  "low_power_mode (snd (active_store parsed s)) = low_power_mode s"
  "screen_off_power_mode (snd (active_store parsed s)) = screen_off_power_mode s"
  by (simp_all add: active_store_def cancel_delayed_work_def flush_workqueue_def
      queue_clusterplug_work_def Let_def split: sum.split)

lemma mode_stores_exclusive:
  assumes "\<not> (low_power_mode s \<and> screen_off_power_mode s)"
  shows "\<not> (low_power_mode (snd (low_power_mode_store parsed s))
            \<and> screen_off_power_mode (snd (low_power_mode_store parsed s)))"
    and "\<not> (low_power_mode (snd (screen_off_power_mode_store parsed s))
            \<and> screen_off_power_mode (snd (screen_off_power_mode_store parsed s)))"
  using assms
  by (auto simp: low_power_mode_store_def screen_off_power_mode_store_def
      cancel_delayed_work_def flush_workqueue_def queue_clusterplug_work_def Let_def
      split: sum.split)

section \<open>Invariants of the reachable states\<close>



lemma step_exclusive:
  assumes "step e s = Some s'" and "\<not> (low_power_mode s \<and> screen_off_power_mode s)"
  shows "\<not> (low_power_mode s' \<and> screen_off_power_mode s')"
proof (cases e)
  case (Tick hw tm)
  with assms show ?thesis using run_pending_work_keeps(1,2) [of hw tm s s'] by simp
next
  case (Lcd ev)
  with assms show ?thesis by (auto simp: lcd_notifier_callback_keeps)
next
  case (Write_active parsed)
  with assms show ?thesis by (auto simp: active_store_keeps_modes)
next
  case (Write_low_power_mode parsed)
  with assms show ?thesis using mode_stores_exclusive(1) [of s parsed] by auto
next
  case (Write_screen_off_power_mode parsed)
  with assms show ?thesis using mode_stores_exclusive(2) [of s parsed] by auto
next
  case (Write_uint p uparsed)
  with assms show ?thesis by (auto simp: param_set_uint_keeps)
qed




lemma reachable_exclusive:
  "reachable_from H s0 s \<Longrightarrow> \<not> (low_power_mode s0 \<and> screen_off_power_mode s0) \<Longrightarrow>
     \<not> (low_power_mode s \<and> screen_off_power_mode s)"
  by (induction rule: reachable_from.induct) (auto dest: step_exclusive)

text \<open>A run of events is a path of reachability.\<close>

lemma reachable_run:
  "reachable_from H s0 s \<Longrightarrow> list_all (hw_allowed H) es \<Longrightarrow> run es s = Some s' \<Longrightarrow>
     reachable_from H s0 s'"
proof (induction es arbitrary: s)
  case Nil
  then show ?case by simp
next
  case (Cons e es)
  from Cons.prems(3) obtain s1 where 1: "step e s = Some s1" and 2: "run es s1 = Some s'"
    by (auto split: option.splits)
  from Cons.prems(2) have a: "hw_allowed H e" and r: "list_all (hw_allowed H) es" by simp_all
  have "reachable_from H s0 s1" by (rule reach_step [OF Cons.prems(1) a 1])
  then show ?case using r 2 by (rule Cons.IH)
qed

lemma run_reachable:
  "list_all (hw_allowed H) es \<Longrightarrow> run es s0 = Some s \<Longrightarrow> reachable_from H s0 s"
  using reachable_run [OF reach_start] by blast

lemma any_hardware_allowed: "hw_allowed any_hardware e"
  by (cases e) (simp_all add: any_hardware_def)

section \<open>The concrete states, run\<close>

lemma fun_upd_const: "(\<lambda>x. c)(a := c) = (\<lambda>x. c)"
  by (simp add: fun_eq_iff)

lemma calc_busy:
  "cp_info s = (\<lambda>cpu. \<lparr>prev_cpu_wall = 0, prev_cpu_idle = 0\<rparr>) \<Longrightarrow>
   online_mask s = (\<lambda>cpu. cpu < 8) \<Longrightarrow>
   calculateLoad busy_times s = Some (100, s)"
  by (simp add: calculateLoad_def possible_cpus_def get_delta_cpu_load_and_update_def
      busy_times_def cpu_online_def is_big_cpu_def N_LITTLE_CPUS_def Let_def fun_upd_const)

lemma calc_busy_partial:
  "cp_info s = (\<lambda>cpu. \<lparr>prev_cpu_wall = 0, prev_cpu_idle = 0\<rparr>) \<Longrightarrow>
   online_mask s = (\<lambda>cpu. cpu < 8 \<and> cpu \<noteq> 6 \<and> cpu \<noteq> 2) \<Longrightarrow>
   calculateLoad busy_times s = Some (100, s)"
  by (simp add: calculateLoad_def possible_cpus_def get_delta_cpu_load_and_update_def
      busy_times_def cpu_online_def is_big_cpu_def N_LITTLE_CPUS_def Let_def fun_upd_const)

lemma sampled_upd:
  "(\<lambda>cpu. \<lparr>prev_cpu_wall = 0, prev_cpu_idle = 0\<rparr>)
     (0 := \<lparr>prev_cpu_wall = w, prev_cpu_idle = i\<rparr>, Suc 0 := \<lparr>prev_cpu_wall = w, prev_cpu_idle = i\<rparr>,
      2 := \<lparr>prev_cpu_wall = w, prev_cpu_idle = i\<rparr>, 3 := \<lparr>prev_cpu_wall = w, prev_cpu_idle = i\<rparr>,
      4 := \<lparr>prev_cpu_wall = w, prev_cpu_idle = i\<rparr>, 5 := \<lparr>prev_cpu_wall = w, prev_cpu_idle = i\<rparr>,
      6 := \<lparr>prev_cpu_wall = w, prev_cpu_idle = i\<rparr>, 7 := \<lparr>prev_cpu_wall = w, prev_cpu_idle = i\<rparr>)
   = sampled i w"
  by (auto simp: fun_eq_iff sampled_def)

lemma calc_half:
  "cp_info s = (\<lambda>cpu. \<lparr>prev_cpu_wall = 0, prev_cpu_idle = 0\<rparr>) \<Longrightarrow>
   online_mask s = (\<lambda>cpu. cpu < 8) \<Longrightarrow>
   calculateLoad half_times s = Some (50, s\<lparr>cp_info := sampled 50 100\<rparr>)"
  by (simp add: calculateLoad_def possible_cpus_def get_delta_cpu_load_and_update_def
      half_times_def cpu_online_def is_big_cpu_def N_LITTLE_CPUS_def Let_def sampled_upd)

lemma calc_edge:
  "cp_info s = (\<lambda>cpu. \<lparr>prev_cpu_wall = 0, prev_cpu_idle = 0\<rparr>) \<Longrightarrow>
   online_mask s = (\<lambda>cpu. cpu < 8) \<Longrightarrow>
   calculateLoad edge_times s = Some (80, s\<lparr>cp_info := sampled 20 100\<rparr>)"
  by (simp add: calculateLoad_def possible_cpus_def get_delta_cpu_load_and_update_def
      edge_times_def cpu_online_def is_big_cpu_def N_LITTLE_CPUS_def Let_def sampled_upd)

lemma tick0:
  "run_pending_work accept_all busy_times (snd (active_store (Inr 1) boot_state))
     = Some running_state"
  by (simp add: run_pending_work_def cluster_plug_work_fn_def active_store_def
      cancel_delayed_work_def flush_workqueue_def running_state_def boot_state_def
      init_state_def Let_def queue_clusterplug_work_def optimized_online_all_def
      eval_nat_numeral cpu_is_offline_def cpu_online_def)

lemma tick1:
  "run_pending_work accept_all busy_times running_state = Some (running_state\<lparr>vote_up := 1\<rparr>)"
  by (simp add: run_pending_work_def cluster_plug_work_fn_def cluster_plug_perform_def
      calc_busy running_state_def boot_state_def init_state_def cast_vote_def Let_def
      queue_clusterplug_work_def)

lemma tick2:
  "run_pending_work accept_all busy_times (running_state\<lparr>vote_up := 1\<rparr>)
     = Some (running_state\<lparr>vote_up := 2\<rparr>)"
  by (simp add: run_pending_work_def cluster_plug_work_fn_def cluster_plug_perform_def
      calc_busy running_state_def boot_state_def init_state_def cast_vote_def Let_def
      queue_clusterplug_work_def)

lemma reachable_tick:
  "reachable_from any_hardware s0 s \<Longrightarrow> run_pending_work hw tm s = Some s' \<Longrightarrow>
     reachable_from any_hardware s0 s'"
  using reach_step [of any_hardware s0 s "Tick hw tm" s'] by (simp add: any_hardware_def)

lemma reachable_event:
  "reachable_from any_hardware s0 s \<Longrightarrow> step e s = Some s' \<Longrightarrow>
     reachable_from any_hardware s0 s'"
  using reach_step [of any_hardware s0 s e s'] any_hardware_allowed by simp

lemma reachable_running: "reachable_from any_hardware boot_state running_state"
proof -
  have "reachable_from any_hardware boot_state (snd (active_store (Inr 1) boot_state))"
    by (rule reachable_event [OF reach_start, of "Write_active (Inr 1)"]) simp
  then show ?thesis using tick0 by (rule reachable_tick)
qed

lemma reachable_voted: "reachable_from any_hardware boot_state voted_state"
proof -
  have "reachable_from any_hardware boot_state (running_state\<lparr>vote_up := 1\<rparr>)"
    using reachable_running tick1 by (rule reachable_tick)
  then have 2: "reachable_from any_hardware boot_state (running_state\<lparr>vote_up := 2\<rparr>)"
    using tick2 by (rule reachable_tick)
  have "step (Write_uint Vote_threshold_up (Inr 1)) (running_state\<lparr>vote_up := 2\<rparr>)
          = Some voted_state"
    by (simp add: param_set_uint_def voted_state_def)
  with 2 show ?thesis by (rule reachable_event)
qed

lemma reachable_screen_off: "reachable_from any_hardware boot_state screen_off_state"
proof -
  have 1: "step (Write_uint Max_cores_screenoff (Inr 2)) running_state
             = Some (running_state\<lparr>max_cores_screenoff := 2\<rparr>)"
    by (simp add: param_set_uint_def)
  have 2: "step (Lcd LCD_EVENT_OFF_END) (running_state\<lparr>max_cores_screenoff := 2\<rparr>)
             = Some screen_off_state"
    by (simp add: lcd_notifier_callback_def cluster_plug_hotplug_suspend_def
        screen_off_state_def running_state_def boot_state_def init_state_def)
  from reachable_event [OF reachable_event [OF reachable_running 1] 2] show ?thesis .
qed

lemma tick_inactive:
  "run_pending_work accept_all busy_times
     (snd (screen_off_power_mode_store (Inr 1) boot_state))
     = Some (boot_state\<lparr>screen_off_power_mode := True, workqueue_suspended := False\<rparr>)"
  by (simp add: run_pending_work_def cluster_plug_work_fn_def screen_off_power_mode_store_def
      cancel_delayed_work_def flush_workqueue_def boot_state_def init_state_def Let_def
      queue_clusterplug_work_def)

lemma tick_power_on:
  "run_pending_work accept_all busy_times
     (snd (active_store (Inr 1)
        (boot_state\<lparr>screen_off_power_mode := True, workqueue_suspended := False\<rparr>)))
     = Some (running_state\<lparr>screen_off_power_mode := True\<rparr>)"
  by (simp add: run_pending_work_def cluster_plug_work_fn_def active_store_def
      cancel_delayed_work_def flush_workqueue_def running_state_def boot_state_def
      init_state_def Let_def queue_clusterplug_work_def optimized_online_all_def
      eval_nat_numeral cpu_is_offline_def cpu_online_def)

lemma reachable_screen_off_power:
  "reachable_from any_hardware boot_state screen_off_power_state"
proof -
  have "reachable_from any_hardware boot_state
          (snd (screen_off_power_mode_store (Inr 1) boot_state))"
    by (rule reachable_event [OF reach_start, of "Write_screen_off_power_mode (Inr 1)"]) simp
  then have "reachable_from any_hardware boot_state
          (boot_state\<lparr>screen_off_power_mode := True, workqueue_suspended := False\<rparr>)"
    using tick_inactive by (rule reachable_tick)
  then have "reachable_from any_hardware boot_state (snd (active_store (Inr 1)
        (boot_state\<lparr>screen_off_power_mode := True, workqueue_suspended := False\<rparr>)))"
    by (rule reachable_event [where e = "Write_active (Inr 1)"]) simp
  then have 1: "reachable_from any_hardware boot_state
          (running_state\<lparr>screen_off_power_mode := True\<rparr>)"
    using tick_power_on by (rule reachable_tick)
  have 2: "step (Write_uint Max_cores_screenoff (Inr 2))
             (running_state\<lparr>screen_off_power_mode := True\<rparr>)
           = Some (running_state\<lparr>screen_off_power_mode := True, max_cores_screenoff := 2\<rparr>)"
    by (simp add: param_set_uint_def)
  have 3: "step (Lcd LCD_EVENT_OFF_END)
             (running_state\<lparr>screen_off_power_mode := True, max_cores_screenoff := 2\<rparr>)
           = Some screen_off_power_state"
    by (simp add: lcd_notifier_callback_def cluster_plug_hotplug_suspend_def
        screen_off_power_state_def screen_off_state_def running_state_def boot_state_def
        init_state_def)
  from reachable_event [OF reachable_event [OF 1 2] 3] show ?thesis .
qed


lemma run_suspend: "run suspend_events boot_state = Some suspended_state"
  by (simp add: suspend_events_def run_pending_work_def cluster_plug_work_fn_def
      active_store_def cancel_delayed_work_def flush_workqueue_def suspended_state_def
      boot_state_def init_state_def Let_def queue_clusterplug_work_def
      optimized_online_all_eq cpu_is_offline_def cpu_online_def
      lcd_notifier_callback_def cluster_plug_hotplug_suspend_def enable_little_cluster_def
      disable_big_cluster_def present_cpus_def switch_cpu_eq is_big_cpu_def
      is_little_cpu_def N_LITTLE_CPUS_def N_BIG_CPUS_def accept_all_def fun_eq_iff)
    presburger



lemma reachable_suspended: "reachable_from any_hardware boot_state suspended_state"
  using run_suspend by (rule run_reachable [rotated]) (simp add: list_all_iff any_hardware_allowed)






lemma active_store_toggle:
  assumes "(val \<noteq> 0) \<noteq> active s"
  shows "active_store (Inr val) s =
     (None, s\<lparr>work_pending := Some 1, active := (val \<noteq> 0), online_all := True,
              workqueue_suspended := False\<rparr>)"
  using assms
  by (simp add: active_store_def cancel_delayed_work_def flush_workqueue_def
      queue_clusterplug_work_def Let_def)

text \<open>The tick that finds \<open>online_all\<close> set.\<close>

lemma force_online_tick:
  assumes "online_all s" and "work_pending s = Some d"
  shows "run_pending_work hw tm s =
     Some (s\<lparr>online_mask := (\<lambda>c. online_mask s c \<or> (c \<le> 7 \<and> hw c)),
             dev_offline := (\<lambda>c. dev_offline s c \<and> \<not> (c \<le> 7 \<and> \<not> online_mask s c)),
             big_cluster_enabled := True, little_cluster_enabled := True,
             online_all := False,
             work_pending := (if active s then Some (sampling_time s) else None)\<rparr>)"
  using assms
  by (simp add: run_pending_work_def cluster_plug_work_fn_unfold optimized_online_all_eq
      queue_clusterplug_work_def)

section \<open>The voting engine\<close>

text \<open>
  C6. After any sequence of calls of \<open>cluster_plug_perform\<close>, the next call, on the load
  it computes, counts the vote (the up counter one up and the down counter one down
  on a load above \<open>load_threshold_up\<close>, the reverse on a load below
  \<open>load_threshold_down\<close>), then adds a core exactly when the up counter is greater than
  \<open>vote_threshold_up\<close>, removes one exactly when that is not so and the down counter is
  greater than \<open>vote_threshold_down\<close>, and whenever it does either leaves both counters
  at 0. The counters never go below zero: a vote that lowers a counter leaves it at
  the larger of 0 and its value less one, the unsigned word never wraps around to
  \<open>2^32 - 1\<close>.
\<close>

theorem perform_votes:
  assumes "perform_all ios s00 = Some s" and "calculateLoad tm s = Some (load, s0)"
  shows "(let up1 = (if load > load_threshold_up s then vote_up s + 1
                     else if load < load_threshold_down s then
                       (if vote_up s > 0 then vote_up s - 1 else vote_up s)
                     else vote_up s);
              down1 = (if load > load_threshold_up s then
                         (if vote_down s > 0 then vote_down s - 1 else vote_down s)
                       else if load < load_threshold_down s then vote_down s + 1
                       else vote_down s);
              a = (if up1 > vote_threshold_up s then AddCore
                   else if down1 > vote_threshold_down s then RemoveCore
                   else NoAction);
              s1 = s0\<lparr>vote_up := (if a = NoAction then up1 else 0),
                       vote_down := (if a = NoAction then down1 else 0)\<rparr>
          in observe load s0 = (a, s1)
           \<and> cluster_plug_perform hw tm s = Some (apply_action hw a s1)
           \<and> vote_up (apply_action hw a s1) = (if a = NoAction then up1 else 0)
           \<and> vote_down (apply_action hw a s1) = (if a = NoAction then down1 else 0)
           \<and> (load > load_threshold_up s \<longrightarrow>
                uint down1 = max 0 (uint (vote_down s) - 1))
           \<and> (\<not> load > load_threshold_up s \<and> load < load_threshold_down s \<longrightarrow>
                uint up1 = max 0 (uint (vote_up s) - 1)))"
proof -
  from calculateLoad_frame [OF assms(2)] obtain ci where s0: "s0 = s\<lparr>cp_info := ci\<rparr>"
    by blast
  define up1 where "up1 = (if load > load_threshold_up s then vote_up s + 1
                     else if load < load_threshold_down s then
                       (if vote_up s > 0 then vote_up s - 1 else vote_up s)
                     else vote_up s)"
  define down1 where "down1 = (if load > load_threshold_up s then
                         (if vote_down s > 0 then vote_down s - 1 else vote_down s)
                       else if load < load_threshold_down s then vote_down s + 1
                       else vote_down s)"
  define a where "a = (if up1 > vote_threshold_up s then AddCore
                   else if down1 > vote_threshold_down s then RemoveCore
                   else NoAction)"
  define s1 where "s1 = s0\<lparr>vote_up := (if a = NoAction then up1 else 0),
                       vote_down := (if a = NoAction then down1 else 0)\<rparr>"
  have cv: "cast_vote load s0 = s0\<lparr>vote_up := up1, vote_down := down1\<rparr>"
    by (simp add: cast_vote_def Let_def up1_def down1_def s0)
  have th: "vote_threshold_up s0 = vote_threshold_up s"
    "vote_threshold_down s0 = vote_threshold_down s"
    by (simp_all add: s0)
  have ob: "observe load s0 = (a, s1)"
    unfolding observe_def Let_def cv by (simp add: th a_def s1_def)
  have pf: "cluster_plug_perform hw tm s = Some (apply_action hw a s1)"
    by (simp add: cluster_plug_perform_observe assms(2) ob)
  have vu: "vote_up (apply_action hw a s1) = (if a = NoAction then up1 else 0)"
    by (cases a) (simp_all add: s1_def online_one_cpu_def offline_one_cpu_def
        online_one_cpu_loop_fields offline_one_cpu_loop_fields)
  have vd: "vote_down (apply_action hw a s1) = (if a = NoAction then down1 else 0)"
    by (cases a) (simp_all add: s1_def online_one_cpu_def offline_one_cpu_def
        online_one_cpu_loop_fields offline_one_cpu_loop_fields)
  have f1: "load > load_threshold_up s \<longrightarrow> uint down1 = max 0 (uint (vote_down s) - 1)"
    using uint_dec_floor [of "vote_down s"] by (simp add: down1_def)
  have f2: "\<not> load > load_threshold_up s \<and> load < load_threshold_down s \<longrightarrow>
                uint up1 = max 0 (uint (vote_up s) - 1)"
    using uint_dec_floor [of "vote_up s"] by (simp add: up1_def)
  show ?thesis
    unfolding Let_def
    using ob pf vu vd f1 f2
    unfolding s1_def a_def up1_def down1_def by blast
qed

lemma perform_partial:
  "cluster_plug_perform accept_all busy_times (partial_state\<lparr>vote_up := v\<rparr>)
     = Some (if v + 1 > 2 then
               (online_one_cpu accept_all (partial_state\<lparr>vote_up := v + 1\<rparr>))
                 \<lparr>vote_up := 0, vote_down := 0\<rparr>
             else partial_state\<lparr>vote_up := v + 1\<rparr>)"
  by (simp add: cluster_plug_perform_def calc_busy_partial partial_state_def running_state_def
      boot_state_def init_state_def cast_vote_def Let_def)

theorem perform_votes_witness:
  "perform_all [(accept_all, busy_times), (accept_all, busy_times)] partial_state
     = Some (partial_state\<lparr>vote_up := 2\<rparr>)
   \<and> calculateLoad busy_times (partial_state\<lparr>vote_up := 2\<rparr>)
       = Some (100, partial_state\<lparr>vote_up := 2\<rparr>)
   \<and> load_threshold_up (partial_state\<lparr>vote_up := 2\<rparr>) < 100
   \<and> vote_threshold_up (partial_state\<lparr>vote_up := 2\<rparr>) = 2
   \<and> observe 100 (partial_state\<lparr>vote_up := 2\<rparr>)
       = (AddCore, partial_state\<lparr>vote_up := 0, vote_down := 0\<rparr>)
   \<and> cluster_plug_perform accept_all busy_times (partial_state\<lparr>vote_up := 2\<rparr>)
       = Some (online_one_cpu accept_all (partial_state\<lparr>vote_up := 0, vote_down := 0\<rparr>))
   \<and> \<not> cpu_online partial_state 6
   \<and> cpu_online (online_one_cpu accept_all (partial_state\<lparr>vote_up := 0, vote_down := 0\<rparr>)) 6
   \<and> vote_up (online_one_cpu accept_all (partial_state\<lparr>vote_up := 0, vote_down := 0\<rparr>)) = 0
   \<and> vote_down (online_one_cpu accept_all (partial_state\<lparr>vote_up := 0, vote_down := 0\<rparr>)) = 0"
proof -
  have p0: "partial_state\<lparr>vote_up := 0\<rparr> = partial_state"
    by (simp add: partial_state_def running_state_def boot_state_def init_state_def)
  have p: "perform_all [(accept_all, busy_times), (accept_all, busy_times)] partial_state
     = Some (partial_state\<lparr>vote_up := 2\<rparr>)"
    using perform_partial [of 0] perform_partial [of 1] by (simp add: p0)
  have c: "calculateLoad busy_times (partial_state\<lparr>vote_up := 2\<rparr>)
       = Some (100, partial_state\<lparr>vote_up := 2\<rparr>)"
    by (simp add: calc_busy_partial partial_state_def running_state_def boot_state_def
        init_state_def)
  have m: "\<not> cpu_online partial_state 6"
    "cpu_online (online_one_cpu accept_all (partial_state\<lparr>vote_up := 0, vote_down := 0\<rparr>)) 6"
    by (simp_all add: cpu_online_def partial_state_def online_one_cpu_def eval_nat_numeral
        cpu_is_offline_def up_step_eq accept_all_def)
  from perform_votes [OF p c, of accept_all] p c m show ?thesis
    by (simp add: Let_def partial_state_def running_state_def boot_state_def init_state_def)
qed

text \<open>
  C7, as the code has it. A load in the dead band, both bounds included, casts no vote.
  The whole step leaves the counters unchanged, and switches no core, when neither
  counter is above its threshold on entry, which is how every step leaves them. A
  counter can still be above its threshold on entry, after the threshold was written
  down between two ticks; then the step adds a core (or removes one, when it is the
  down counter) and resets both counters.
\<close>

theorem dead_band:
  assumes "calculateLoad tm s = Some (L, s0)"
    and "load_threshold_down s \<le> L" and "L \<le> load_threshold_up s"
  shows "cast_vote L s0 = s0
       \<and> vote_up s0 = vote_up s \<and> vote_down s0 = vote_down s
       \<and> (vote_up s \<le> vote_threshold_up s \<and> vote_down s \<le> vote_threshold_down s \<longrightarrow>
            observe L s0 = (NoAction, s0) \<and> cluster_plug_perform hw tm s = Some s0)
       \<and> (vote_threshold_up s < vote_up s \<longrightarrow>
            observe L s0 = (AddCore, s0\<lparr>vote_up := 0, vote_down := 0\<rparr>)
            \<and> cluster_plug_perform hw tm s
                = Some (online_one_cpu hw (s0\<lparr>vote_up := 0, vote_down := 0\<rparr>)))
       \<and> (\<not> vote_threshold_up s < vote_up s \<and> vote_threshold_down s < vote_down s \<longrightarrow>
            observe L s0 = (RemoveCore, s0\<lparr>vote_up := 0, vote_down := 0\<rparr>)
            \<and> cluster_plug_perform hw tm s
                = Some (offline_one_cpu hw (s0\<lparr>vote_up := 0, vote_down := 0\<rparr>)))
       \<and> (cluster_plug_perform hw' tm' t = Some t' \<longrightarrow>
            vote_up t' \<le> vote_threshold_up t' \<and> vote_down t' \<le> vote_threshold_down t')"
proof -
  from calculateLoad_frame [OF assms(1)] obtain ci where s0: "s0 = s\<lparr>cp_info := ci\<rparr>"
    by blast
  from assms(2,3) have "\<not> L > load_threshold_up s0" "\<not> L < load_threshold_down s0"
    by (simp_all add: not_less s0)
  then have c: "cast_vote L s0 = s0" by (rule cast_vote_dead)
  have v: "vote_up s0 = vote_up s" "vote_down s0 = vote_down s" by (simp_all add: s0)
  have t: "vote_threshold_up s0 = vote_threshold_up s"
    "vote_threshold_down s0 = vote_threshold_down s"
    by (simp_all add: s0)
  have p: "cluster_plug_perform hw tm s
             = Some (apply_action hw (fst (observe L s0)) (snd (observe L s0)))"
    by (simp add: cluster_plug_perform_observe assms(1))
  have 1: "vote_up s \<le> vote_threshold_up s \<and> vote_down s \<le> vote_threshold_down s \<longrightarrow>
            observe L s0 = (NoAction, s0) \<and> cluster_plug_perform hw tm s = Some s0"
    unfolding p by (auto simp add: observe_def Let_def c v t not_less)
  have 2: "vote_threshold_up s < vote_up s \<longrightarrow>
            observe L s0 = (AddCore, s0\<lparr>vote_up := 0, vote_down := 0\<rparr>)
            \<and> cluster_plug_perform hw tm s
                = Some (online_one_cpu hw (s0\<lparr>vote_up := 0, vote_down := 0\<rparr>))"
    unfolding p by (simp add: observe_def Let_def c v t)
  have 3: "\<not> vote_threshold_up s < vote_up s \<and> vote_threshold_down s < vote_down s \<longrightarrow>
            observe L s0 = (RemoveCore, s0\<lparr>vote_up := 0, vote_down := 0\<rparr>)
            \<and> cluster_plug_perform hw tm s
                = Some (offline_one_cpu hw (s0\<lparr>vote_up := 0, vote_down := 0\<rparr>))"
    unfolding p by (simp add: observe_def Let_def c v t)
  have 4: "cluster_plug_perform hw' tm' t = Some t' \<longrightarrow>
            vote_up t' \<le> vote_threshold_up t' \<and> vote_down t' \<le> vote_threshold_down t'"
  proof
    assume a: "cluster_plug_perform hw' tm' t = Some t'"
    then obtain l t0 where cl: "calculateLoad tm' t = Some (l, t0)"
      by (auto simp: cluster_plug_perform_def split: option.splits)
    from a show "vote_up t' \<le> vote_threshold_up t' \<and> vote_down t' \<le> vote_threshold_down t'"
      by (auto simp: cluster_plug_perform_def cl Let_def online_one_cpu_def
          offline_one_cpu_def online_one_cpu_loop_fields offline_one_cpu_loop_fields
          not_less split: if_splits)
  qed
  from c v 1 2 3 4 show ?thesis by blast
qed

theorem dead_band_witness:
  "calculateLoad edge_times running_state
     = Some (80, running_state\<lparr>cp_info := sampled 20 100\<rparr>)
   \<and> load_threshold_down running_state \<le> 80 \<and> 80 \<le> load_threshold_up running_state
   \<and> load_threshold_up running_state = 80
   \<and> vote_up running_state \<le> vote_threshold_up running_state
   \<and> vote_down running_state \<le> vote_threshold_down running_state
   \<and> cluster_plug_perform accept_all edge_times running_state
       = Some (running_state\<lparr>cp_info := sampled 20 100\<rparr>)
   \<and> vote_up (running_state\<lparr>cp_info := sampled 20 100\<rparr>) = vote_up running_state
   \<and> vote_down (running_state\<lparr>cp_info := sampled 20 100\<rparr>) = vote_down running_state"
proof -
  have c: "calculateLoad edge_times running_state
     = Some (80, running_state\<lparr>cp_info := sampled 20 100\<rparr>)"
    by (simp add: calc_edge running_state_def boot_state_def init_state_def)
  have h: "load_threshold_down running_state \<le> 80" "80 \<le> load_threshold_up running_state"
    by (simp_all add: running_state_def boot_state_def init_state_def)
  have v: "vote_up running_state \<le> vote_threshold_up running_state"
    "vote_down running_state \<le> vote_threshold_down running_state"
    "load_threshold_up running_state = 80"
    by (simp_all add: running_state_def boot_state_def init_state_def)
  from dead_band [OF c h, of accept_all accept_all edge_times running_state running_state]
    c h v
  show ?thesis by simp
qed

text \<open>
  \<open>voted_state\<close> is reached by two busy ticks and a write of 1 to
  \<open>vote_threshold_up\<close>. There a load of 50, inside the band from 20 to 80, makes the step
  take the up counter from 2 to 0.
\<close>

theorem dead_band_counterexample:
  "reachable_from any_hardware boot_state voted_state
   \<and> load_threshold_down voted_state \<le> 50 \<and> 50 \<le> load_threshold_up voted_state
   \<and> vote_up voted_state = 2
   \<and> observe 50 voted_state = (AddCore, voted_state\<lparr>vote_up := 0, vote_down := 0\<rparr>)
   \<and> vote_up (snd (observe 50 voted_state)) = 0
   \<and> calculateLoad half_times voted_state
       = Some (50, voted_state\<lparr>cp_info := sampled 50 100\<rparr>)
   \<and> cluster_plug_perform accept_all half_times voted_state
       = Some (voted_state\<lparr>cp_info := sampled 50 100, vote_up := 0, vote_down := 0\<rparr>)"
proof -
  have c: "calculateLoad half_times voted_state
       = Some (50, voted_state\<lparr>cp_info := sampled 50 100\<rparr>)"
    by (simp add: calc_half voted_state_def running_state_def boot_state_def init_state_def)
  have o: "online_one_cpu accept_all
             (voted_state\<lparr>cp_info := sampled 50 100, vote_up := 0, vote_down := 0\<rparr>)
           = voted_state\<lparr>cp_info := sampled 50 100, vote_up := 0, vote_down := 0\<rparr>"
    by (simp add: online_one_cpu_def eval_nat_numeral cpu_is_offline_def cpu_online_def
        voted_state_def running_state_def boot_state_def init_state_def)
  have ob: "observe 50 (voted_state\<lparr>cp_info := sampled 50 100\<rparr>)
             = (AddCore, voted_state\<lparr>cp_info := sampled 50 100, vote_up := 0, vote_down := 0\<rparr>)"
    by (simp add: observe_def cast_vote_def Let_def voted_state_def running_state_def
        boot_state_def init_state_def)
  have p: "cluster_plug_perform accept_all half_times voted_state
       = Some (voted_state\<lparr>cp_info := sampled 50 100, vote_up := 0, vote_down := 0\<rparr>)"
    unfolding cluster_plug_perform_observe c by (simp add: ob o)
  show ?thesis
    using reachable_voted c p
    by (simp add: voted_state_def running_state_def boot_state_def init_state_def observe_def
        cast_vote_def Let_def)
qed

section \<open>The reachable states\<close>




text \<open>
  C9. In every reachable state \<open>low_power_mode\<close> and \<open>screen_off_power_mode\<close> are not
  both set, so they are not both set after any write to either of them; and a write
  of a nonzero value to one of them leaves it set and the other clear.
\<close>

theorem power_modes_exclusive:
  assumes "reachable_from H (init_state online offl) s"
  shows "\<not> (low_power_mode s \<and> screen_off_power_mode s)
       \<and> \<not> (low_power_mode (snd (low_power_mode_store parsed s))
              \<and> screen_off_power_mode (snd (low_power_mode_store parsed s)))
       \<and> \<not> (low_power_mode (snd (screen_off_power_mode_store parsed s))
              \<and> screen_off_power_mode (snd (screen_off_power_mode_store parsed s)))
       \<and> (val \<noteq> 0 \<longrightarrow>
            low_power_mode (snd (low_power_mode_store (Inr val) s))
            \<and> \<not> screen_off_power_mode (snd (low_power_mode_store (Inr val) s)))
       \<and> (val \<noteq> 0 \<longrightarrow>
            screen_off_power_mode (snd (screen_off_power_mode_store (Inr val) s))
            \<and> \<not> low_power_mode (snd (screen_off_power_mode_store (Inr val) s)))"
proof -
  have "\<not> (low_power_mode (init_state online offl)
            \<and> screen_off_power_mode (init_state online offl))"
    by (simp add: init_state_def)
  with assms have e: "\<not> (low_power_mode s \<and> screen_off_power_mode s)"
    by (rule reachable_exclusive)
  have 4: "val \<noteq> 0 \<longrightarrow>
            low_power_mode (snd (low_power_mode_store (Inr val) s))
            \<and> \<not> screen_off_power_mode (snd (low_power_mode_store (Inr val) s))"
    using e
    by (auto simp: low_power_mode_store_def cancel_delayed_work_def flush_workqueue_def
        queue_clusterplug_work_def Let_def)
  have 5: "val \<noteq> 0 \<longrightarrow>
            screen_off_power_mode (snd (screen_off_power_mode_store (Inr val) s))
            \<and> \<not> low_power_mode (snd (screen_off_power_mode_store (Inr val) s))"
    using e
    by (auto simp: screen_off_power_mode_store_def cancel_delayed_work_def flush_workqueue_def
        queue_clusterplug_work_def Let_def)
  from e mode_stores_exclusive [OF e] 4 5 show ?thesis by blast
qed

theorem power_modes_exclusive_witness:
  "reachable_from any_hardware (init_state (\<lambda>cpu. cpu < 8) (\<lambda>cpu. False))
     screen_off_power_state
   \<and> screen_off_power_mode screen_off_power_state
   \<and> \<not> low_power_mode screen_off_power_state
   \<and> (1::int) \<noteq> 0
   \<and> low_power_mode (snd (low_power_mode_store (Inr 1) screen_off_power_state))
   \<and> \<not> screen_off_power_mode (snd (low_power_mode_store (Inr 1) screen_off_power_state))"
proof -
  have r: "reachable_from any_hardware (init_state (\<lambda>cpu. cpu < 8) (\<lambda>cpu. False))
             screen_off_power_state"
    using reachable_screen_off_power by (simp add: boot_state_def)
  from r power_modes_exclusive [OF r, where parsed = "Inr 1" and val = 1]
  show ?thesis by (simp add: screen_off_power_state_def)
qed

section \<open>The periodic work and the policy\<close>

text \<open>
  C1, as the code has it. The tick takes the power-saving path when the screen is off
  and \<open>screen_off_power_mode\<close> is \<^emph>\<open>clear\<close> (or when \<open>low_power_mode\<close> is set). With the
  controller active, \<open>online_all\<close> clear, the screen off, \<open>screen_off_power_mode\<close> clear,
  \<open>max_cores_screenoff\<close> 2 and the big cluster marked enabled, the queued tick asks for
  cpu0 and cpu1 to be online and for every other core to be offline; a core changes
  when the kernel carries the call out. When it carries out every call, no big core is
  left online and exactly the little cores 0 and 1 are. In either case the tick sets
  \<open>workqueue_suspended\<close> and does not queue the work again.
  With \<open>screen_off_power_mode\<close> set and \<open>low_power_mode\<close> clear the tick is a voting
  tick: one call of \<open>cluster_plug_perform\<close>, after which the work is queued again
  \<open>sampling_time\<close> ahead and neither \<open>workqueue_suspended\<close> nor \<open>big_cluster_enabled\<close>
  has changed.
\<close>

theorem screen_off_tick:
  assumes "active s" and "\<not> online_all s" and "\<not> screen_on s" and "work_pending s = Some d"
  shows "(\<not> screen_off_power_mode s \<and> max_cores_screenoff s = 2 \<and> big_cluster_enabled s \<longrightarrow>
           (\<exists>s'. run_pending_work hw tm s = Some s'
              \<and> (\<forall>c \<in> set present_cpus.
                    cpu_online s' c = (if c < 2 then cpu_online s c \<or> hw c
                                       else cpu_online s c \<and> \<not> hw c))
              \<and> ((\<forall>c \<in> set present_cpus. hw c) \<longrightarrow>
                    (\<forall>c \<in> set present_cpus. is_big_cpu c \<longrightarrow> \<not> cpu_online s' c)
                    \<and> {c. is_little_cpu c \<and> cpu_online s' c} = {0, 1})
              \<and> workqueue_suspended s' \<and> work_pending s' = None))
       \<and> (screen_off_power_mode s \<and> \<not> low_power_mode s \<longrightarrow>
            run_pending_work hw tm s =
              map_option (\<lambda>s2. s2\<lparr>work_pending := Some (sampling_time s), online_all := False\<rparr>)
                (cluster_plug_perform hw tm (s\<lparr>work_pending := None\<rparr>))
            \<and> (\<forall>s'. run_pending_work hw tm s = Some s' \<longrightarrow>
                  work_pending s' = Some (sampling_time s)
                  \<and> workqueue_suspended s' = workqueue_suspended s
                  \<and> big_cluster_enabled s' = big_cluster_enabled s)
            \<and> (cpu_online s 0 \<longrightarrow> (\<exists>s'. run_pending_work hw tm s = Some s')))"
proof -
  define s0 where "s0 = s\<lparr>work_pending := None\<rparr>"
  have f0: "active s0" "\<not> online_all s0" "\<not> screen_on s0"
    "screen_off_power_mode s0 = screen_off_power_mode s"
    "low_power_mode s0 = low_power_mode s" "max_cores_screenoff s0 = max_cores_screenoff s"
    "big_cluster_enabled s0 = big_cluster_enabled s" "online_mask s0 = online_mask s"
    "sampling_time s0 = sampling_time s" "work_pending s0 = None"
    "workqueue_suspended s0 = workqueue_suspended s"
    using assms by (simp_all add: s0_def)
  have run0: "run_pending_work hw tm s = cluster_plug_work_fn hw tm s0"
    using assms(4) by (simp add: run_pending_work_def s0_def)
  have A: "\<exists>s'. run_pending_work hw tm s = Some s'
              \<and> (\<forall>c \<in> set present_cpus.
                    cpu_online s' c = (if c < 2 then cpu_online s c \<or> hw c
                                       else cpu_online s c \<and> \<not> hw c))
              \<and> ((\<forall>c \<in> set present_cpus. hw c) \<longrightarrow>
                    (\<forall>c \<in> set present_cpus. is_big_cpu c \<longrightarrow> \<not> cpu_online s' c)
                    \<and> {c. is_little_cpu c \<and> cpu_online s' c} = {0, 1})
              \<and> workqueue_suspended s' \<and> work_pending s' = None"
    if h: "\<not> screen_off_power_mode s" "max_cores_screenoff s = 2" "big_cluster_enabled s"
  proof -
    define s' where "s' = (disable_big_cluster hw (enable_little_cluster hw s0))
                           \<lparr>workqueue_suspended := True\<rparr>"
    have run: "run_pending_work hw tm s = Some s'"
      unfolding run0 cluster_plug_work_fn_unfold using f0 h by (simp add: s'_def)
    have el: "enable_little_cluster hw s0 =
        (enable_little_loop hw present_cpus 2 s0)\<lparr>little_cluster_enabled := True\<rparr>"
      using f0 h by (simp add: enable_little_cluster_def)
    have b0: "big_cluster_enabled s0" using f0 h by simp
    have mask: "online_mask s' c = (if c < 2 then online_mask s c \<or> hw c
                                     else online_mask s c \<and> \<not> hw c)"
      if "c < 8" for c
      using that b0 f0(8)
      by (auto simp add: s'_def disable_big_cluster_def el enable_little_loop_fields
          disable_big_loop_present enable_little_loop_present)
    have cores: "\<forall>c \<in> set present_cpus.
                    cpu_online s' c = (if c < 2 then cpu_online s c \<or> hw c
                                       else cpu_online s c \<and> \<not> hw c)"
      by (simp add: present_cpus_def cpu_online_def mask)
    have all: "(\<forall>c \<in> set present_cpus. is_big_cpu c \<longrightarrow> \<not> cpu_online s' c)
                    \<and> {c. is_little_cpu c \<and> cpu_online s' c} = {0, 1}"
      if a: "\<forall>c \<in> set present_cpus. hw c"
    proof -
      from a have hw8: "hw c" if "c < 8" for c
        using that by (simp add: present_cpus_set)
      have m: "online_mask s' c = (c < 2)" if "c < 8" for c
        using that mask [of c] hw8 [of c] by simp
      have m4: "online_mask s' c = (c < 2)" if "c < 4" for c
        using that m [of c] by simp
      have big: "\<forall>c \<in> set present_cpus. is_big_cpu c \<longrightarrow> \<not> cpu_online s' c"
        by (simp add: present_cpus_def is_big_cpu_def N_LITTLE_CPUS_def cpu_online_def m)
      have little: "{c. is_little_cpu c \<and> cpu_online s' c} = {0, 1}"
        using m4 by (auto simp: is_little_cpu_def N_LITTLE_CPUS_def cpu_online_def)
      from big little show ?thesis by blast
    qed
    have susp: "workqueue_suspended s'" by (simp add: s'_def)
    have pend: "work_pending s' = None"
      by (simp add: s'_def suspend_path_fields f0)
    from run cores all susp pend show ?thesis by blast
  qed
  have B: "run_pending_work hw tm s =
              map_option (\<lambda>s2. s2\<lparr>work_pending := Some (sampling_time s), online_all := False\<rparr>)
                (cluster_plug_perform hw tm (s\<lparr>work_pending := None\<rparr>))
            \<and> (\<forall>s'. run_pending_work hw tm s = Some s' \<longrightarrow>
                  work_pending s' = Some (sampling_time s)
                  \<and> workqueue_suspended s' = workqueue_suspended s
                  \<and> big_cluster_enabled s' = big_cluster_enabled s)
            \<and> (cpu_online s 0 \<longrightarrow> (\<exists>s'. run_pending_work hw tm s = Some s'))"
    if h: "screen_off_power_mode s" "\<not> low_power_mode s"
  proof -
    have w: "cluster_plug_work_fn hw tm s0 =
               (case cluster_plug_perform hw tm s0 of
                  None \<Rightarrow> None
                | Some s2 \<Rightarrow>
                    Some ((queue_clusterplug_work (sampling_time s2) s2)\<lparr>online_all := False\<rparr>))"
      unfolding cluster_plug_work_fn_unfold using f0 h by simp
    have q: "(queue_clusterplug_work (sampling_time s2) s2)\<lparr>online_all := False\<rparr>
               = s2\<lparr>work_pending := Some (sampling_time s), online_all := False\<rparr>"
      if "cluster_plug_perform hw tm s0 = Some s2" for s2
      using cluster_plug_perform_keeps(4,5) [OF that] f0
      by (simp add: queue_clusterplug_work_def)
    have 1: "run_pending_work hw tm s =
              map_option (\<lambda>s2. s2\<lparr>work_pending := Some (sampling_time s), online_all := False\<rparr>)
                (cluster_plug_perform hw tm s0)"
      unfolding run0 w by (cases "cluster_plug_perform hw tm s0") (simp_all add: q)
    have 2: "work_pending s' = Some (sampling_time s)
                  \<and> workqueue_suspended s' = workqueue_suspended s
                  \<and> big_cluster_enabled s' = big_cluster_enabled s"
      if r: "run_pending_work hw tm s = Some s'" for s'
    proof -
      from r obtain s2 where p: "cluster_plug_perform hw tm s0 = Some s2"
        and s': "s' = s2\<lparr>work_pending := Some (sampling_time s), online_all := False\<rparr>"
        unfolding 1 by auto
      show ?thesis
        using cluster_plug_perform_keeps(6,7) [OF p] f0 by (simp add: s')
    qed
    have 3: "\<exists>s'. run_pending_work hw tm s = Some s'" if "cpu_online s 0"
    proof -
      have "active s0 \<longrightarrow> online_all s0 \<or> online_mask s0 0"
        using that f0 by (simp add: cpu_online_def)
      then show ?thesis unfolding run0 by (rule cluster_plug_work_fn_total)
    qed
    from 1 2 3 show ?thesis unfolding s0_def by blast
  qed
  from A B show ?thesis by blast
qed

text \<open>
  At \<open>screen_off_state\<close>, all eight cores online before the tick and the kernel
  carrying out every call; and at \<open>screen_off_power_state\<close>. Both states are reachable.
\<close>

theorem screen_off_tick_witness:
  "reachable_from any_hardware boot_state screen_off_state
   \<and> reachable_from any_hardware boot_state screen_off_power_state
   \<and> active screen_off_state \<and> \<not> online_all screen_off_state \<and> \<not> screen_on screen_off_state
   \<and> \<not> screen_off_power_mode screen_off_state \<and> max_cores_screenoff screen_off_state = 2
   \<and> big_cluster_enabled screen_off_state \<and> work_pending screen_off_state = Some 50
   \<and> cpu_online screen_off_state 3 \<and> cpu_online screen_off_state 7
   \<and> (\<exists>s'. run_pending_work accept_all busy_times screen_off_state = Some s'
       \<and> (\<forall>c \<in> set present_cpus. is_big_cpu c \<longrightarrow> \<not> cpu_online s' c)
       \<and> {c. is_little_cpu c \<and> cpu_online s' c} = {0, 1}
       \<and> workqueue_suspended s' \<and> work_pending s' = None)
   \<and> active screen_off_power_state \<and> \<not> online_all screen_off_power_state
   \<and> \<not> screen_on screen_off_power_state \<and> work_pending screen_off_power_state = Some 50
   \<and> screen_off_power_mode screen_off_power_state \<and> \<not> low_power_mode screen_off_power_state
   \<and> cpu_online screen_off_power_state 0
   \<and> (\<exists>s'. run_pending_work accept_all busy_times screen_off_power_state = Some s'
       \<and> work_pending s' = Some 50 \<and> \<not> workqueue_suspended s' \<and> big_cluster_enabled s')"
proof -
  have h: "active screen_off_state" "\<not> online_all screen_off_state"
    "\<not> screen_on screen_off_state" "work_pending screen_off_state = Some 50"
    by (simp_all add: screen_off_state_def running_state_def boot_state_def init_state_def)
  have g: "\<not> screen_off_power_mode screen_off_state" "max_cores_screenoff screen_off_state = 2"
    "big_cluster_enabled screen_off_state"
    "cpu_online screen_off_state 3" "cpu_online screen_off_state 7"
    by (simp_all add: screen_off_state_def running_state_def boot_state_def init_state_def
        cpu_online_def)
  have a: "\<forall>c \<in> set present_cpus. accept_all c" by (simp add: accept_all_def)
  have h': "active screen_off_power_state" "\<not> online_all screen_off_power_state"
    "\<not> screen_on screen_off_power_state" "work_pending screen_off_power_state = Some 50"
    by (simp_all add: screen_off_power_state_def screen_off_state_def running_state_def
        boot_state_def init_state_def)
  have g': "screen_off_power_mode screen_off_power_state"
    "\<not> low_power_mode screen_off_power_state" "cpu_online screen_off_power_state 0"
    "sampling_time screen_off_power_state = 50"
    "\<not> workqueue_suspended screen_off_power_state"
    "big_cluster_enabled screen_off_power_state"
    by (simp_all add: screen_off_power_state_def screen_off_state_def running_state_def
        boot_state_def init_state_def cpu_online_def)
  from screen_off_tick [OF h, of accept_all busy_times] g a
  have 1: "\<exists>s'. run_pending_work accept_all busy_times screen_off_state = Some s'
       \<and> (\<forall>c \<in> set present_cpus. is_big_cpu c \<longrightarrow> \<not> cpu_online s' c)
       \<and> {c. is_little_cpu c \<and> cpu_online s' c} = {0, 1}
       \<and> workqueue_suspended s' \<and> work_pending s' = None"
    by blast
  from screen_off_tick [OF h', of accept_all busy_times] g'
  have 2: "\<exists>s'. run_pending_work accept_all busy_times screen_off_power_state = Some s'
       \<and> work_pending s' = Some 50 \<and> \<not> workqueue_suspended s' \<and> big_cluster_enabled s'"
    by metis
  from reachable_screen_off reachable_screen_off_power h g 1 h' g'(1,2,3) 2
  show ?thesis by blast
qed

text \<open>
  With \<open>screen_off_power_mode\<close> set and \<open>low_power_mode\<close> clear, the tick with the
  screen off is an ordinary voting tick: here it casts one up vote, all eight cores
  stay online, the work is not suspended and is queued again after 50 ms.
\<close>

theorem screen_off_power_mode_counterexample:
  "reachable_from any_hardware boot_state screen_off_power_state
   \<and> active screen_off_power_state \<and> \<not> screen_on screen_off_power_state
   \<and> screen_off_power_mode screen_off_power_state \<and> \<not> low_power_mode screen_off_power_state
   \<and> max_cores_screenoff screen_off_power_state = 2
   \<and> run_pending_work accept_all busy_times screen_off_power_state
       = Some (screen_off_power_state\<lparr>vote_up := 1\<rparr>)
   \<and> cpu_online (screen_off_power_state\<lparr>vote_up := 1\<rparr>) 7
   \<and> cpu_online (screen_off_power_state\<lparr>vote_up := 1\<rparr>) 3
   \<and> \<not> workqueue_suspended (screen_off_power_state\<lparr>vote_up := 1\<rparr>)
   \<and> work_pending (screen_off_power_state\<lparr>vote_up := 1\<rparr>) = Some 50"
  using reachable_screen_off_power
  by (simp add: run_pending_work_def cluster_plug_work_fn_def cluster_plug_perform_def
      calc_busy screen_off_power_state_def screen_off_state_def running_state_def
      boot_state_def init_state_def cast_vote_def Let_def queue_clusterplug_work_def
      cpu_online_def)

text \<open>
  C10, as the code has it. A write that changes \<open>active\<close>, to either value, is accepted,
  sets \<open>online_all\<close> and queues the work once, 1 ms ahead. The tick that follows calls
  \<open>cpu_up\<close> for every core it finds offline, all eight included, and sets both cluster
  flags. A core comes online when the kernel carries the call out; the driver does not
  look at what \<open>cpu_up\<close> returns and clears the device's offline flag of every core it
  found offline. So all eight cores are online after the tick when no call is refused;
  a core whose call is refused stays offline, also after a write of 0.
\<close>

theorem toggle_active_onlines_all:
  assumes "(val \<noteq> 0) \<noteq> active s"
  shows "fst (active_store (Inr val) s) = None
       \<and> active (snd (active_store (Inr val) s)) = (val \<noteq> 0)
       \<and> online_all (snd (active_store (Inr val) s))
       \<and> work_pending (snd (active_store (Inr val) s)) = Some 1
       \<and> (\<exists>s2. run_pending_work hw tm (snd (active_store (Inr val) s)) = Some s2
            \<and> (\<forall>c \<in> set present_cpus. cpu_online s2 c = (cpu_online s c \<or> hw c))
            \<and> (\<forall>c \<in> set present_cpus. dev_offline s2 c = (dev_offline s c \<and> cpu_online s c))
            \<and> ((\<forall>c \<in> set present_cpus. hw c) \<longrightarrow> (\<forall>c \<in> set present_cpus. cpu_online s2 c))
            \<and> big_cluster_enabled s2 \<and> little_cluster_enabled s2
            \<and> active s2 = (val \<noteq> 0) \<and> \<not> online_all s2
            \<and> work_pending s2 = (if val \<noteq> 0 then Some (sampling_time s) else None))"
proof -
  define s1 where "s1 = snd (active_store (Inr val) s)"
  have s1: "s1 = s\<lparr>work_pending := Some 1, active := (val \<noteq> 0), online_all := True,
              workqueue_suspended := False\<rparr>"
    by (simp add: s1_def active_store_toggle [OF assms])
  have a: "online_all s1" "work_pending s1 = Some 1" "active s1 = (val \<noteq> 0)"
    by (simp_all add: s1)
  have "\<exists>s2. run_pending_work hw tm s1 = Some s2
            \<and> (\<forall>c \<in> set present_cpus. cpu_online s2 c = (cpu_online s c \<or> hw c))
            \<and> (\<forall>c \<in> set present_cpus. dev_offline s2 c = (dev_offline s c \<and> cpu_online s c))
            \<and> ((\<forall>c \<in> set present_cpus. hw c) \<longrightarrow> (\<forall>c \<in> set present_cpus. cpu_online s2 c))
            \<and> big_cluster_enabled s2 \<and> little_cluster_enabled s2
            \<and> active s2 = (val \<noteq> 0) \<and> \<not> online_all s2
            \<and> work_pending s2 = (if val \<noteq> 0 then Some (sampling_time s) else None)"
    unfolding force_online_tick [OF a(1,2)]
    by (auto simp add: s1 present_cpus_def cpu_online_def)
  moreover have "fst (active_store (Inr val) s) = None"
    by (simp add: active_store_toggle [OF assms])
  ultimately show ?thesis using a unfolding s1_def by blast
qed

text \<open>
  Switching on from \<open>lone_boot_state\<close>, where cpu5 alone is online, and switching off
  from \<open>suspended_state\<close>, where cpu0 alone is online; the kernel carries out every call.
\<close>

theorem toggle_active_onlines_all_witness:
  "((1::int) \<noteq> 0) \<noteq> active lone_boot_state
   \<and> \<not> cpu_online lone_boot_state 0 \<and> \<not> cpu_online lone_boot_state 7
   \<and> fst (active_store (Inr 1) lone_boot_state) = None
   \<and> active (snd (active_store (Inr 1) lone_boot_state))
   \<and> online_all (snd (active_store (Inr 1) lone_boot_state))
   \<and> work_pending (snd (active_store (Inr 1) lone_boot_state)) = Some 1
   \<and> (\<exists>s2. run_pending_work accept_all busy_times (snd (active_store (Inr 1) lone_boot_state))
              = Some s2
        \<and> (\<forall>c \<in> set present_cpus. cpu_online s2 c)
        \<and> big_cluster_enabled s2 \<and> little_cluster_enabled s2
        \<and> active s2 \<and> work_pending s2 = Some 50)
   \<and> ((0::int) \<noteq> 0) \<noteq> active suspended_state
   \<and> \<not> cpu_online suspended_state 1 \<and> \<not> cpu_online suspended_state 7
   \<and> \<not> big_cluster_enabled suspended_state
   \<and> fst (active_store (Inr 0) suspended_state) = None
   \<and> \<not> active (snd (active_store (Inr 0) suspended_state))
   \<and> online_all (snd (active_store (Inr 0) suspended_state))
   \<and> work_pending (snd (active_store (Inr 0) suspended_state)) = Some 1
   \<and> (\<exists>s2. run_pending_work accept_all busy_times (snd (active_store (Inr 0) suspended_state))
              = Some s2
        \<and> (\<forall>c \<in> set present_cpus. cpu_online s2 c)
        \<and> (\<forall>c \<in> set present_cpus. \<not> dev_offline s2 c)
        \<and> big_cluster_enabled s2 \<and> little_cluster_enabled s2
        \<and> \<not> active s2 \<and> work_pending s2 = None)"
proof -
  have h1: "((1::int) \<noteq> 0) \<noteq> active lone_boot_state"
    by (simp add: lone_boot_state_def init_state_def)
  have h0: "((0::int) \<noteq> 0) \<noteq> active suspended_state"
    by (simp add: suspended_state_def)
  have a: "\<forall>c \<in> set present_cpus. accept_all c" by (simp add: accept_all_def)
  have f: "\<not> cpu_online lone_boot_state 0" "\<not> cpu_online lone_boot_state 7"
    "sampling_time lone_boot_state = 50"
    "\<not> cpu_online suspended_state 1" "\<not> cpu_online suspended_state 7"
    "\<not> big_cluster_enabled suspended_state"
    by (simp_all add: lone_boot_state_def suspended_state_def boot_state_def init_state_def
        cpu_online_def)
  have d: "\<forall>c \<in> set present_cpus. \<not> (dev_offline suspended_state c \<and> cpu_online suspended_state c)"
    by (simp add: suspended_state_def cpu_online_def present_cpus_def)
  from toggle_active_onlines_all [OF h1, of accept_all busy_times] a f(3)
  have 1: "fst (active_store (Inr 1) lone_boot_state) = None
   \<and> active (snd (active_store (Inr 1) lone_boot_state))
   \<and> online_all (snd (active_store (Inr 1) lone_boot_state))
   \<and> work_pending (snd (active_store (Inr 1) lone_boot_state)) = Some 1
   \<and> (\<exists>s2. run_pending_work accept_all busy_times (snd (active_store (Inr 1) lone_boot_state))
              = Some s2
        \<and> (\<forall>c \<in> set present_cpus. cpu_online s2 c)
        \<and> big_cluster_enabled s2 \<and> little_cluster_enabled s2
        \<and> active s2 \<and> work_pending s2 = Some 50)"
    by auto
  from toggle_active_onlines_all [OF h0, of accept_all busy_times] a d
  have 2: "fst (active_store (Inr 0) suspended_state) = None
   \<and> \<not> active (snd (active_store (Inr 0) suspended_state))
   \<and> online_all (snd (active_store (Inr 0) suspended_state))
   \<and> work_pending (snd (active_store (Inr 0) suspended_state)) = Some 1
   \<and> (\<exists>s2. run_pending_work accept_all busy_times (snd (active_store (Inr 0) suspended_state))
              = Some s2
        \<and> (\<forall>c \<in> set present_cpus. cpu_online s2 c)
        \<and> (\<forall>c \<in> set present_cpus. \<not> dev_offline s2 c)
        \<and> big_cluster_enabled s2 \<and> little_cluster_enabled s2
        \<and> \<not> active s2 \<and> work_pending s2 = None)"
    by auto
  from h1 h0 f 1 2 show ?thesis by blast
qed

text \<open>
  The controller is switched off from \<open>suspended_state\<close> and the kernel refuses \<open>cpu_up\<close>
  of cpu7 in the tick that follows: the controller is off, cpu7 is offline, its device
  is not marked offline and the big cluster is marked enabled.
\<close>

theorem toggle_refused_counterexample:
  "reachable_from any_hardware boot_state suspended_state
   \<and> active suspended_state \<and> \<not> cpu_online suspended_state 7
   \<and> dev_offline suspended_state 7
   \<and> fst (active_store (Inr 0) suspended_state) = None
   \<and> work_pending (snd (active_store (Inr 0) suspended_state)) = Some 1
   \<and> \<not> refuse_cpu7 7
   \<and> run_pending_work refuse_cpu7 busy_times (snd (active_store (Inr 0) suspended_state))
        = Some refused_state
   \<and> \<not> active refused_state \<and> work_pending refused_state = None
   \<and> \<not> cpu_online refused_state 7 \<and> cpu_online refused_state 6
   \<and> \<not> dev_offline refused_state 7
   \<and> big_cluster_enabled refused_state \<and> little_cluster_enabled refused_state"
proof -
  have r: "run_pending_work refuse_cpu7 busy_times (snd (active_store (Inr 0) suspended_state))
        = Some refused_state"
    by (simp add: run_pending_work_def cluster_plug_work_fn_unfold optimized_online_all_eq
        active_store_def cancel_delayed_work_def flush_workqueue_def queue_clusterplug_work_def
        Let_def suspended_state_def refused_state_def boot_state_def init_state_def
        refuse_cpu7_def fun_eq_iff)
      presburger
  show ?thesis
    using reachable_suspended r
    by (simp add: active_store_def cancel_delayed_work_def flush_workqueue_def
        queue_clusterplug_work_def Let_def suspended_state_def refused_state_def
        boot_state_def init_state_def refuse_cpu7_def cpu_online_def)
qed

text \<open>
  C4, as the code has it. Switching the controller off takes the queued tick off the
  queue and queues one more, 1 ms ahead. That last tick runs after the write has
  returned: it calls \<open>cpu_up\<close> for every offline core, which brings online the cores
  whose call the kernel carries out (all eight when none is refused), takes no sample
  and casts no vote, and does not queue the work again; after it display notifications
  change nothing and nothing is left to run.
\<close>

theorem disable_queues_final_tick:
  assumes "active s"
  shows "\<not> active (snd (active_store (Inr 0) s))
       \<and> work_pending (snd (active_store (Inr 0) s)) = Some 1
       \<and> (\<exists>s2. run_pending_work hw tm (snd (active_store (Inr 0) s)) = Some s2
            \<and> work_pending s2 = None \<and> \<not> active s2 \<and> \<not> online_all s2
            \<and> vote_up s2 = vote_up s \<and> vote_down s2 = vote_down s \<and> cp_info s2 = cp_info s
            \<and> (\<forall>c \<in> set present_cpus. cpu_online s2 c = (cpu_online s c \<or> hw c))
            \<and> ((\<forall>c \<in> set present_cpus. hw c) \<longrightarrow> (\<forall>c \<in> set present_cpus. cpu_online s2 c))
            \<and> lcd_notifier_callback ev s2 = s2
            \<and> run_pending_work hw' tm' s2 = Some s2)"
proof -
  define s1 where "s1 = snd (active_store (Inr 0) s)"
  have t: "((0::int) \<noteq> 0) \<noteq> active s" using assms by simp
  have s1: "s1 = s\<lparr>work_pending := Some 1, active := False, online_all := True,
              workqueue_suspended := False\<rparr>"
    using active_store_toggle [OF t] by (simp add: s1_def)
  have a: "online_all s1" "work_pending s1 = Some 1" "\<not> active s1"
    by (simp_all add: s1)
  have "\<exists>s2. run_pending_work hw tm s1 = Some s2
            \<and> work_pending s2 = None \<and> \<not> active s2 \<and> \<not> online_all s2
            \<and> vote_up s2 = vote_up s \<and> vote_down s2 = vote_down s \<and> cp_info s2 = cp_info s
            \<and> (\<forall>c \<in> set present_cpus. cpu_online s2 c = (cpu_online s c \<or> hw c))
            \<and> ((\<forall>c \<in> set present_cpus. hw c) \<longrightarrow> (\<forall>c \<in> set present_cpus. cpu_online s2 c))
            \<and> lcd_notifier_callback ev s2 = s2
            \<and> run_pending_work hw' tm' s2 = Some s2"
    unfolding force_online_tick [OF a(1,2)]
    by (auto simp add: s1 present_cpus_def cpu_online_def lcd_notifier_callback_def
        run_pending_work_def)
  then show ?thesis using a(2,3) unfolding s1_def by blast
qed

text \<open>At \<open>suspended_state\<close>, cpu0 alone online, the kernel carrying out every call.\<close>

theorem disable_queues_final_tick_witness:
  "active suspended_state \<and> \<not> cpu_online suspended_state 7
   \<and> \<not> active (snd (active_store (Inr 0) suspended_state))
   \<and> work_pending (snd (active_store (Inr 0) suspended_state)) = Some 1
   \<and> (\<exists>s2. run_pending_work accept_all busy_times (snd (active_store (Inr 0) suspended_state))
              = Some s2
        \<and> work_pending s2 = None \<and> \<not> active s2 \<and> \<not> online_all s2
        \<and> vote_up s2 = vote_up suspended_state \<and> vote_down s2 = vote_down suspended_state
        \<and> cp_info s2 = cp_info suspended_state
        \<and> (\<forall>c \<in> set present_cpus. cpu_online s2 c)
        \<and> lcd_notifier_callback LCD_EVENT_ON_START s2 = s2
        \<and> run_pending_work refuse_all half_times s2 = Some s2)"
proof -
  have h: "active suspended_state" by (simp add: suspended_state_def)
  have f: "\<not> cpu_online suspended_state 7" by (simp add: suspended_state_def cpu_online_def)
  have a: "\<forall>c \<in> set present_cpus. accept_all c" by (simp add: accept_all_def)
  from disable_queues_final_tick
    [OF h, where hw = accept_all and tm = busy_times and ev = LCD_EVENT_ON_START
       and hw' = refuse_all and tm' = half_times] a
  have "\<not> active (snd (active_store (Inr 0) suspended_state))
   \<and> work_pending (snd (active_store (Inr 0) suspended_state)) = Some 1
   \<and> (\<exists>s2. run_pending_work accept_all busy_times (snd (active_store (Inr 0) suspended_state))
              = Some s2
        \<and> work_pending s2 = None \<and> \<not> active s2 \<and> \<not> online_all s2
        \<and> vote_up s2 = vote_up suspended_state \<and> vote_down s2 = vote_down suspended_state
        \<and> cp_info s2 = cp_info suspended_state
        \<and> (\<forall>c \<in> set present_cpus. cpu_online s2 c)
        \<and> lcd_notifier_callback LCD_EVENT_ON_START s2 = s2
        \<and> run_pending_work refuse_all half_times s2 = Some s2)"
    by auto
  with h f show ?thesis by blast
qed

text \<open>
  After the write of 0 to \<open>active\<close> has returned, the work is queued, and it runs: the
  tick clears \<open>online_all\<close> and leaves the queue empty.
\<close>

theorem tick_after_disable_counterexample:
  "active running_state
   \<and> active_store (Inr 0) running_state
        = (None, boot_state\<lparr>online_all := True, workqueue_suspended := False,
                               work_pending := Some 1\<rparr>)
   \<and> work_pending (snd (active_store (Inr 0) running_state)) = Some 1
   \<and> run_pending_work accept_all busy_times (snd (active_store (Inr 0) running_state))
        = Some (boot_state\<lparr>workqueue_suspended := False\<rparr>)"
  by (simp add: run_pending_work_def cluster_plug_work_fn_unfold active_store_def
      cancel_delayed_work_def flush_workqueue_def running_state_def boot_state_def
      init_state_def Let_def queue_clusterplug_work_def optimized_online_all_eq
      accept_all_def fun_eq_iff)
    presburger

section \<open>Parameter writes\<close>

text \<open>
  C3, as the code has it. A write whose text does not parse is rejected: the setter
  returns the error and the state is unchanged, for the six numbers and the three
  flags alike. A number that parses is stored as it is, whatever the other parameters
  hold, and changes no other parameter. A \<open>max_cores_screenoff\<close> outside 1..4 is
  ignored where it is used: \<open>enable_little_cluster\<close> then asks for four little cores.
\<close>

theorem config_write_unparsed_rejected:
  "param_set_uint p (Inl e) s = (Some e, s)
   \<and> active_store (Inl e) s = (Some e, s)
   \<and> low_power_mode_store (Inl e) s = (Some e, s)
   \<and> screen_off_power_mode_store (Inl e) s = (Some e, s)
   \<and> param_set_uint p (Inr v) s = (None, store_uint p v s)
   \<and> load_uint p (store_uint p v s) = v
   \<and> (\<forall>q. q \<noteq> p \<longrightarrow> load_uint q (store_uint p v s) = load_uint q s)
   \<and> (\<not> (0 < max_cores_screenoff s \<and> max_cores_screenoff s \<le> 4) \<longrightarrow>
        enable_little_cluster hw s =
          (enable_little_loop hw present_cpus 4 s)\<lparr>little_cluster_enabled := True\<rparr>)"
proof -
  have 1: "load_uint p (store_uint p v s) = v" by (cases p) simp_all
  have 2: "\<forall>q. q \<noteq> p \<longrightarrow> load_uint q (store_uint p v s) = load_uint q s"
  proof (intro allI impI)
    fix q :: uint_param
    assume "q \<noteq> p"
    then show "load_uint q (store_uint p v s) = load_uint q s"
      by (cases p; cases q) simp_all
  qed
  have 3: "\<not> (0 < max_cores_screenoff s \<and> max_cores_screenoff s \<le> 4) \<longrightarrow>
        enable_little_cluster hw s =
          (enable_little_loop hw present_cpus 4 s)\<lparr>little_cluster_enabled := True\<rparr>"
    by (simp add: enable_little_cluster_def)
  show ?thesis
    using 1 2 3
    by (simp add: param_set_uint_def active_store_def low_power_mode_store_def
        screen_off_power_mode_store_def)
qed

theorem config_write_unparsed_rejected_witness:
  "param_set_uint Max_cores_screenoff (Inl EINVAL) boot_state = (Some EINVAL, boot_state)
   \<and> param_set_uint Max_cores_screenoff (Inr 9) boot_state
        = (None, boot_state\<lparr>max_cores_screenoff := 9\<rparr>)
   \<and> \<not> (0 < max_cores_screenoff (boot_state\<lparr>max_cores_screenoff := 9\<rparr>)
          \<and> max_cores_screenoff (boot_state\<lparr>max_cores_screenoff := 9\<rparr>) \<le> 4)
   \<and> enable_little_cluster accept_all (boot_state\<lparr>max_cores_screenoff := 9\<rparr>) =
        (enable_little_loop accept_all present_cpus 4 (boot_state\<lparr>max_cores_screenoff := 9\<rparr>))
          \<lparr>little_cluster_enabled := True\<rparr>"
  using config_write_unparsed_rejected
    [where p = Max_cores_screenoff and e = EINVAL
       and s = "boot_state\<lparr>max_cores_screenoff := 9\<rparr>" and v = 9 and hw = accept_all]
    config_write_unparsed_rejected
    [where p = Max_cores_screenoff and e = EINVAL and s = boot_state and v = 9
       and hw = accept_all]
  by (simp add: boot_state_def init_state_def)

text \<open>
  Accepted and stored: 90 for \<open>load_threshold_down\<close> while \<open>load_threshold_up\<close> is 80,
  0 for \<open>vote_threshold_up\<close>, 9 for \<open>max_cores_screenoff\<close>.
\<close>

theorem invalid_values_accepted_counterexample:
  "load_threshold_up boot_state = 80
   \<and> param_set_uint Load_threshold_down (Inr 90) boot_state
        = (None, boot_state\<lparr>load_threshold_down := 90\<rparr>)
   \<and> \<not> load_threshold_down (boot_state\<lparr>load_threshold_down := 90\<rparr>)
          < load_threshold_up (boot_state\<lparr>load_threshold_down := 90\<rparr>)
   \<and> param_set_uint Vote_threshold_up (Inr 0) boot_state
        = (None, boot_state\<lparr>vote_threshold_up := 0\<rparr>)
   \<and> param_set_uint Max_cores_screenoff (Inr 9) boot_state
        = (None, boot_state\<lparr>max_cores_screenoff := 9\<rparr>)
   \<and> boot_state\<lparr>load_threshold_down := 90\<rparr> \<noteq> boot_state"
proof -
  have "load_threshold_down (boot_state\<lparr>load_threshold_down := 90\<rparr>)
          \<noteq> load_threshold_down boot_state"
    by (simp add: boot_state_def init_state_def)
  then have "boot_state\<lparr>load_threshold_down := 90\<rparr> \<noteq> boot_state" by metis
  then show ?thesis
    by (simp add: param_set_uint_def boot_state_def init_state_def)
qed

end
